theory Spec2Isabelle
  imports Complex_Main "HOL-Library.Word" "HOL-Library.Sublist" "HOL-Library.Multiset"
begin

section \<open>The storefront component (frontend/src/App.js)\<close>

text \<open>
  The React component \<^verbatim>\<open>AdvancedEcommerceAI\<close> keeps its data in state hooks. The model
  passes that state explicitly: every handler takes the state it closes over and returns
  the state after its \<^verbatim>\<open>set...\<close> calls. JavaScript numbers that hold identifiers and
  counts are modelled as \<open>int\<close> (exact below \<open>2^53\<close>), prices and scores as \<open>real\<close>.
  The emoji of the \<^verbatim>\<open>image\<close> field are written as their code point names, the file
  being ASCII. The fields \<^verbatim>\<open>id\<close>, \<^verbatim>\<open>image\<close> and \<^verbatim>\<open>type\<close> carry a prime.
\<close>

record product =
  id' :: int
  name :: string
  category :: string
  price :: real
  rating :: real
  image' :: string
  description :: string
  tags :: "string list"
  brand :: string
  stock :: int
  features :: "string list"
  reviews :: int

record cart_item = product +
  quantity :: int

record model_scores =
  collaborative :: real
  contentBased :: real
  deepLearning :: real
  hybrid :: real

record recommendation = product +
  confidence :: real
  modelScores :: model_scores

record user =
  uid :: int
  uname :: string
  email :: string
  utype :: string
  preferences :: "string list"
  age :: int
  location :: string

record behavior =
  userId :: int
  productId :: int
  type' :: string
  timestamp :: int

text \<open>
  The state of the component that the handlers below read or write. \<open>scheduled\<close> lists
  the user ids of the \<^verbatim>\<open>generateAdvancedRecommendations\<close> calls that
  \<^verbatim>\<open>recordAdvancedInteraction\<close> has handed to \<^verbatim>\<open>setTimeout\<close>. Notifications and the
  loading flags only drive the display and are left out.
\<close>

record app_state =
  currentUser :: "user option"
  cart :: "cart_item list"
  userBehavior :: "behavior list"
  recommendations :: "recommendation list"
  scheduled :: "int list"

definition sampleProducts :: "product list" where
  "sampleProducts =
    [\<lparr>id' = 1, name = ''Wireless Bluetooth Headphones'', category = ''Electronics'',
      price = 99.99, rating = 4.5, image' = ''U+1F3A7'',
      description = ''Premium noise-canceling headphones with 30hr battery'',
      tags = [''wireless'', ''noise-canceling'', ''premium''], brand = ''AudioTech'', stock = 45,
      features = [''Active Noise Cancellation'', ''30hr Battery'', ''Quick Charge''],
      reviews = 1247\<rparr>,
     \<lparr>id' = 2, name = ''Smart Fitness Watch'', category = ''Electronics'',
      price = 199.99, rating = 4.7, image' = ''U+231A'',
      description = ''Advanced health tracking with GPS and heart rate'',
      tags = [''fitness'', ''smartwatch'', ''health''], brand = ''FitTech'', stock = 32,
      features = [''GPS Tracking'', ''Heart Rate Monitor'', ''Sleep Analysis''],
      reviews = 892\<rparr>,
     \<lparr>id' = 3, name = ''Organic Cotton T-Shirt'', category = ''Clothing'',
      price = 29.99, rating = 4.3, image' = ''U+1F455'',
      description = ''Sustainable and comfortable everyday wear'',
      tags = [''organic'', ''sustainable'', ''cotton''], brand = ''EcoWear'', stock = 78,
      features = [''100% Organic Cotton'', ''Fair Trade'', ''Machine Washable''],
      reviews = 456\<rparr>,
     \<lparr>id' = 4, name = ''Premium Coffee Beans'', category = ''Food'',
      price = 24.99, rating = 4.8, image' = ''U+2615'',
      description = ''Single-origin Ethiopian beans, medium roast'',
      tags = [''coffee'', ''organic'', ''fair-trade''], brand = ''BrewMaster'', stock = 67,
      features = [''Single Origin'', ''Medium Roast'', ''Fair Trade Certified''],
      reviews = 2134\<rparr>,
     \<lparr>id' = 5, name = ''Yoga Mat Pro'', category = ''Sports'',
      price = 59.99, rating = 4.6, image' = ''U+1F9D8'',
      description = ''Non-slip premium yoga mat with alignment guides'',
      tags = [''yoga'', ''fitness'', ''non-slip''], brand = ''ZenFit'', stock = 23,
      features = [''Non-slip Surface'', ''Alignment Lines'', ''Eco-friendly''],
      reviews = 678\<rparr>]"

text \<open>
  The callback of \<^verbatim>\<open>sampleProducts.slice(0, 6).map(...)\<close>: each product is copied and
  given a confidence and four model scores, every one of them a fresh \<^verbatim>\<open>Math.random()\<close>.
  The values \<^verbatim>\<open>Math.random\<close> returns are the sequence \<open>random\<close>; \<open>k\<close> is the number of
  draws made so far. An object literal evaluates its properties in order, so a product
  takes five consecutive draws.
\<close>

fun recs_map :: "(nat \<Rightarrow> real) \<Rightarrow> nat \<Rightarrow> product list \<Rightarrow> recommendation list" where
  "recs_map random k [] = []"
| "recs_map random k (p # ps) =
     product.extend p
       \<lparr>confidence = random k * 0.5 + 0.5,
        modelScores = \<lparr>collaborative = random (k + 1), contentBased = random (k + 2),
                       deepLearning = random (k + 3), hybrid = random (k + 4)\<rparr>\<rparr>
     # recs_map random (k + 5) ps"

text \<open>
  \<^verbatim>\<open>generateAdvancedRecommendations(userId)\<close>: the state once its 2000 ms timer has fired.
  The argument \<open>uId\<close> (the source's \<^verbatim>\<open>userId\<close>) is not read by the body.
\<close>

definition generateAdvancedRecommendations :: "(nat \<Rightarrow> real) \<Rightarrow> int \<Rightarrow> app_state \<Rightarrow> app_state" where
  "generateAdvancedRecommendations random uId s =
     (let recs = recs_map random 0 (take 6 sampleProducts)
      in s\<lparr>recommendations := recs\<rparr>)"

text \<open>
  \<^verbatim>\<open>recordAdvancedInteraction(productId, type)\<close>; \<open>now\<close> is the value of \<^verbatim>\<open>new Date()\<close>.
\<close>

definition recordAdvancedInteraction :: "int \<Rightarrow> int \<Rightarrow> string \<Rightarrow> app_state \<Rightarrow> app_state" where
  "recordAdvancedInteraction now pId ty s =
     (case currentUser s of
        None \<Rightarrow> s
      | Some u \<Rightarrow>
          (let newBehavior = \<lparr>userId = uid u, productId = pId, type' = ty, timestamp = now\<rparr>;
               s' = s\<lparr>userBehavior := userBehavior s @ [newBehavior]\<rparr>
           in if ty \<in> set [''purchase'', ''cart'', ''wishlist'']
              then s'\<lparr>scheduled := scheduled s' @ [uid u]\<rparr>
              else s'))"

text \<open>
  \<^verbatim>\<open>addToCart(product)\<close>. \<^verbatim>\<open>cart.find\<close> returns the first entry with the product's id
  or \<^verbatim>\<open>undefined\<close>; the \<^verbatim>\<open>map\<close> of the first branch rewrites every entry with that id.
\<close>

definition addToCart :: "int \<Rightarrow> product \<Rightarrow> app_state \<Rightarrow> app_state" where
  "addToCart now p s =
     (let s' =
        (case find (\<lambda>item. id' item = id' p) (cart s) of
           Some existingItem \<Rightarrow>
             s\<lparr>cart := map (\<lambda>item. if id' item = id' p
                                    then item\<lparr>quantity := quantity item + 1\<rparr>
                                    else item) (cart s)\<rparr>
         | None \<Rightarrow> s\<lparr>cart := cart s @ [product.extend p \<lparr>quantity = 1\<rparr>]\<rparr>)
      in recordAdvancedInteraction now (id' p) ''cart'' s')"

text \<open>\<^verbatim>\<open>handleUserLogin(user)\<close>, with the recommendations as they are after the timer.\<close>

definition handleUserLogin :: "(nat \<Rightarrow> real) \<Rightarrow> user \<Rightarrow> app_state \<Rightarrow> app_state" where
  "handleUserLogin random u s =
     generateAdvancedRecommendations random (uid u) (s\<lparr>currentUser := Some u\<rparr>)"

text \<open>
  The click handler of the Checkout button: a purchase is recorded for every cart entry,
  then the cart is emptied.
\<close>

definition checkout :: "int \<Rightarrow> app_state \<Rightarrow> app_state" where
  "checkout now s =
     (foldl (\<lambda>t item. recordAdvancedInteraction now (id' item) ''purchase'' t) s (cart s))
       \<lparr>cart := []\<rparr>"

text \<open>
  The click handler of the Logout button, and \<^verbatim>\<open>generateAdvancedBehavior\<close>, which the
  effect that runs when the component is mounted calls: it replaces the log by a list of
  randomly drawn interactions of the four users, here the argument \<open>behaviors\<close>.
\<close>

definition logout :: "app_state \<Rightarrow> app_state" where
  "logout s = s\<lparr>currentUser := None, recommendations := []\<rparr>"

definition generateAdvancedBehavior :: "behavior list \<Rightarrow> app_state \<Rightarrow> app_state" where
  "generateAdvancedBehavior behaviors s = s\<lparr>userBehavior := behaviors\<rparr>"

text \<open>The state of the hooks as \<^verbatim>\<open>useState\<close> initialises them.\<close>

definition initial_state :: app_state where
  "initial_state =
     \<lparr>currentUser = None, cart = [], userBehavior = [], recommendations = [], scheduled = []\<rparr>"

text \<open>
  The states the component can be in: it starts with the initial state, and each handler
  that writes one of the modelled hooks leads from a state to the next. The cart is
  written by \<^verbatim>\<open>addToCart\<close> and by the checkout handler only.
\<close>

inductive reachable :: "app_state \<Rightarrow> bool" where
  init: "reachable initial_state"
| mount: "reachable s \<Longrightarrow> reachable (generateAdvancedBehavior behaviors s)"
| add: "reachable s \<Longrightarrow> reachable (addToCart now p s)"
| buy: "reachable s \<Longrightarrow> reachable (checkout now s)"
| login: "reachable s \<Longrightarrow> reachable (handleUserLogin random u s)"
| leave: "reachable s \<Longrightarrow> reachable (logout s)"
| interact: "reachable s \<Longrightarrow> reachable (recordAdvancedInteraction now pId ty s)"
| regenerate: "reachable s \<Longrightarrow> reachable (generateAdvancedRecommendations random uId s)"

text \<open>The first of the four entries of \<^verbatim>\<open>users\<close>, the user the examples log in.\<close>

definition alex :: user where
  "alex =
     \<lparr>uid = 1, uname = ''Alex Chen'', email = ''alex@example.com'', utype = ''tech_enthusiast'',
      preferences = [''electronics'', ''gadgets'', ''innovation''], age = 28,
      location = ''San Francisco''\<rparr>"




section \<open>The API service (frontend/src/services/api.js)\<close>

text \<open>
  The methods of \<^verbatim>\<open>ApiService\<close> are \<^verbatim>\<open>async\<close>: each returns a promise that is fulfilled
  with a value or rejected with an error. The model returns \<open>Inr\<close> of the value or
  \<open>Inl\<close> of the error. What the browser provides is a parameter: \<open>fetch\<close> (with the
  \<^verbatim>\<open>json()\<close> of its response already run), \<^verbatim>\<open>JSON.stringify\<close>, the string conversion of
  \<^verbatim>\<open>URLSearchParams\<close> and the value of \<^verbatim>\<open>process.env.NODE_ENV\<close>.
\<close>

datatype json =
    JNull
  | JBool bool
  | JNumber real
  | JString string
  | JArray "json list"
  | JObject "(string \<times> json) list"

datatype js_error = Error string | TypeError string | SyntaxError string

record request_options =
  headers :: "(string \<times> string) list option"
  http_method :: "string option"
  body :: "string option"

record response =
  ok :: bool
  status :: nat
  json_body :: "js_error + json"

record browser =
  NODE_ENV :: string
  fetch :: "string \<Rightarrow> request_options \<Rightarrow> js_error + response"
  stringify :: "json \<Rightarrow> string"
  search_params :: "(string \<times> string) list \<Rightarrow> string"

text \<open>Decimal notation, as a template literal prints a number that is an integer.\<close>

definition digit_char :: "nat \<Rightarrow> char" where
  "digit_char d =
     (if d = 0 then CHR ''0'' else if d = 1 then CHR ''1'' else if d = 2 then CHR ''2''
      else if d = 3 then CHR ''3'' else if d = 4 then CHR ''4'' else if d = 5 then CHR ''5''
      else if d = 6 then CHR ''6'' else if d = 7 then CHR ''7'' else if d = 8 then CHR ''8''
      else CHR ''9'')"

function show_nat :: "nat \<Rightarrow> string" where
  "show_nat n = (if n < 10 then [digit_char n] else show_nat (n div 10) @ [digit_char (n mod 10)])"
  by pat_completeness auto
termination
  by (relation "measure (\<lambda>n. n)") auto

declare show_nat.simps [simp del]

definition show_int :: "int \<Rightarrow> string" where
  "show_int i = (if i < 0 then CHR ''-'' # show_nat (nat (- i)) else show_nat (nat i))"

text \<open>Reading decimal notation back, to tell the notations of two numbers apart.\<close>

definition digit_val :: "char \<Rightarrow> nat" where
  "digit_val c = of_char c - 48"

definition read_nat :: "string \<Rightarrow> nat" where
  "read_nat cs = foldl (\<lambda>a c. 10 * a + digit_val c) 0 cs"

definition API_BASE_URL :: "browser \<Rightarrow> string" where
  "API_BASE_URL b =
     (if NODE_ENV b = ''production'' then ''https://your-domain.com/api''
      else ''http://localhost:8000/api'')"

definition no_options :: request_options where
  "no_options = \<lparr>headers = None, http_method = None, body = None\<rparr>"

text \<open>
  \<^verbatim>\<open>request(endpoint, options = {})\<close>. In \<^verbatim>\<open>config\<close> the spread \<^verbatim>\<open>...options\<close> comes
  after the \<^verbatim>\<open>headers\<close> property, so headers given in \<^verbatim>\<open>options\<close> replace the merged
  ones. The \<^verbatim>\<open>catch\<close> block logs the error and throws it again.
\<close>

definition request :: "browser \<Rightarrow> string \<Rightarrow> request_options \<Rightarrow> js_error + json" where
  "request b endpoint options =
     (let url = API_BASE_URL b @ endpoint;
          config = options\<lparr>headers :=
                     (case headers options of
                        None \<Rightarrow> Some [(''Content-Type'', ''application/json'')]
                      | Some h \<Rightarrow> Some h)\<rparr>
      in case fetch b url config of
           Inl error \<Rightarrow> Inl error
         | Inr response \<Rightarrow>
             if \<not> ok response
             then Inl (Error (''HTTP error! status: '' @ show_nat (status response)))
             else (case json_body response of
                     Inl error \<Rightarrow> Inl error
                   | Inr v \<Rightarrow> Inr v))"

text \<open>\<^verbatim>\<open>getRecommendations(userId, count = 10)\<close>; \<open>None\<close> for \<open>cnt\<close> is a count left out.\<close>

definition getRecommendations :: "browser \<Rightarrow> int \<Rightarrow> int option \<Rightarrow> js_error + json" where
  "getRecommendations b uId cnt =
     request b
       (''/recommendations/'' @ show_int uId @ ''/?count='' @
          show_int (case cnt of None \<Rightarrow> 10 | Some c \<Rightarrow> c))
       no_options"

definition recordInteraction :: "browser \<Rightarrow> int \<Rightarrow> int \<Rightarrow> string \<Rightarrow> js_error + json" where
  "recordInteraction b uId pId interactionType =
     request b ''/interaction/''
       \<lparr>headers = None, http_method = Some ''POST'',
        body = Some (stringify b (JObject
                 [(''user_id'', JNumber (of_int uId)),
                  (''product_id'', JNumber (of_int pId)),
                  (''interaction_type'', JString interactionType)]))\<rparr>"

text \<open>
  \<^verbatim>\<open>searchProducts(query, userId = null)\<close>. \<^verbatim>\<open>if (userId)\<close> holds for a number other than 0.
\<close>

definition searchProducts :: "browser \<Rightarrow> string \<Rightarrow> int option \<Rightarrow> js_error + json" where
  "searchProducts b query uId =
     (let params = [(''q'', query)];
          params' = (case uId of
                       None \<Rightarrow> params
                     | Some u \<Rightarrow> if u \<noteq> 0 then params @ [(''user_id'', show_int u)] else params)
      in request b (''/search/?'' @ search_params b params') no_options)"

definition trainModels :: "browser \<Rightarrow> js_error + json" where
  "trainModels b = request b ''/train/'' \<lparr>headers = None, http_method = Some ''POST'', body = None\<rparr>"

definition sample_product :: "int \<Rightarrow> string \<Rightarrow> string \<Rightarrow> real \<Rightarrow> string \<Rightarrow> json" where
  "sample_product i n c p d =
     JObject [(''id'', JNumber (of_int i)), (''name'', JString n), (''category'', JString c),
              (''price'', JNumber p), (''description'', JString d)]"

text \<open>The object the \<^verbatim>\<open>catch\<close> block of \<^verbatim>\<open>getAllProducts\<close> returns.\<close>

definition sample_data :: json where
  "sample_data =
     JObject
       [(''products'', JArray
          [sample_product 1 ''Wireless Bluetooth Headphones'' ''Electronics'' 99.99
             ''Premium noise-canceling headphones'',
           sample_product 2 ''Smart Fitness Watch'' ''Electronics'' 199.99
             ''Track your health and fitness goals'',
           sample_product 3 ''Organic Cotton T-Shirt'' ''Clothing'' 29.99
             ''Comfortable and sustainable fashion'',
           sample_product 4 ''Premium Coffee Beans'' ''Food'' 24.99
             ''Single-origin artisan roasted coffee'',
           sample_product 5 ''Yoga Mat Pro'' ''Sports'' 59.99
             ''Non-slip premium yoga mat'']),
        (''count'', JNumber 5)]"

definition getAllProducts :: "browser \<Rightarrow> js_error + json" where
  "getAllProducts b =
     (case searchProducts b '''' None of
        Inr v \<Rightarrow> Inr v
      | Inl error \<Rightarrow> Inr sample_data)"

text \<open>Reading a property of a JSON object: the value of the last property of that name.\<close>

fun json_get :: "string \<Rightarrow> json \<Rightarrow> json option" where
  "json_get k (JObject kvs) = map_of (rev kvs) k"
| "json_get k _ = None"

text \<open>
  Two browsers to run the service in. In \<open>offline_browser\<close> every \<^verbatim>\<open>fetch\<close> is rejected, as
  it is when no server listens. In \<open>browser_answering st v\<close> every \<^verbatim>\<open>fetch\<close> is answered
  with status \<open>st\<close> and the JSON body \<open>v\<close>; \<^verbatim>\<open>response.ok\<close> holds for the statuses 200 to
  299. \<open>join_params\<close> is the string form of \<^verbatim>\<open>URLSearchParams\<close> for names and values that
  need no percent-encoding, and \<open>no_stringify\<close> stands for a \<^verbatim>\<open>JSON.stringify\<close> whose output
  is not looked at.
\<close>

fun join_params :: "(string \<times> string) list \<Rightarrow> string" where
  "join_params [] = []"
| "join_params [(k, v)] = k @ ''='' @ v"
| "join_params ((k, v) # kvs) = k @ ''='' @ v @ ''&'' @ join_params kvs"

definition no_stringify :: "json \<Rightarrow> string" where
  "no_stringify v = []"

definition offline_browser :: browser where
  "offline_browser =
     \<lparr>NODE_ENV = ''development'',
      fetch = (\<lambda>url config. Inl (TypeError ''Failed to fetch'')),
      stringify = no_stringify,
      search_params = join_params\<rparr>"

definition browser_answering :: "nat \<Rightarrow> json \<Rightarrow> browser" where
  "browser_answering st v =
     \<lparr>NODE_ENV = ''development'',
      fetch = (\<lambda>url config. Inr \<lparr>ok = (200 \<le> st \<and> st \<le> 299), status = st, json_body = Inr v\<rparr>),
      stringify = no_stringify,
      search_params = join_params\<rparr>"

section \<open>The recommendation service (the Python listings of frontend/src/App.js)\<close>

text \<open>
  From line 838 on, the file holds the technical documentation of the Django backend with
  its Python listings. The model below follows those listings. The database is a pair of
  tables, the cache a map from keys to a value and the time it expires at; times are
  seconds. The two predictors (\<^verbatim>\<open>collaborative_filtering_model.predict\<close>,
  \<^verbatim>\<open>matrix_factorization_model.predict\<close>) are not in the listings and are parameters: each
  returns a one-dimensional array of scores.

  The scores are floats. Their type \<open>'f\<close> is left open, and so is their arithmetic: the
  value a decimal literal or a \<^verbatim>\<open>Decimal\<close> is rounded to, the product and the sum of two
  floats. What is proved holds for every such arithmetic, that of the doubles among them.
  The one thing asked of \<open>'f\<close> is that its values are linearly ordered, which leaves out
  NaN, a value that compares with nothing.
\<close>

record 'f arith =
  f_of_real :: "real \<Rightarrow> 'f"
  f_mul :: "'f \<Rightarrow> 'f \<Rightarrow> 'f"
  f_add :: "'f \<Rightarrow> 'f \<Rightarrow> 'f"

datatype py_error = ValueError | KeyError | IntegrityError

record Product =
  p_id :: int
  p_name :: string
  p_description :: string
  p_category :: string
  p_price :: real
  created_at :: int

record UserBehavior =
  user_id :: int
  product_id :: int
  interaction_type :: string
  rating' :: "real option"
  timestamp' :: int
  session_id :: "string option"

text \<open>The dictionary \<^verbatim>\<open>get_recommendations\<close> builds for a recommended product.\<close>

record 'f rec_dict =
  d_product_id :: int
  d_product_name :: string
  d_category :: string
  d_price :: 'f
  d_confidence_score :: 'f

type_synonym 'f cache = "string \<Rightarrow> ('f rec_dict list \<times> int) option"

record 'f server =
  auth_user :: "int list"
  products :: "Product list"
  user_behavior :: "UserBehavior list"
  cache :: "'f cache"

record 'f engine =
  cf_predict :: "int \<Rightarrow> Product list \<Rightarrow> 'f list"
  mf_predict :: "int \<Rightarrow> Product list \<Rightarrow> 'f list"

text \<open>
  \<^verbatim>\<open>cache.get(key)\<close> at time \<open>now\<close> (\<open>None\<close> for a missing or expired key),
  \<^verbatim>\<open>cache.set(key, value, timeout)\<close>, and \<^verbatim>\<open>cache.delete_pattern(p + "*")\<close>, which deletes
  the keys that start with \<open>p\<close>.
\<close>

definition cache_get :: "'f cache \<Rightarrow> int \<Rightarrow> string \<Rightarrow> 'f rec_dict list option" where
  "cache_get c now k =
     (case c k of
        None \<Rightarrow> None
      | Some (v, expires) \<Rightarrow> if now < expires then Some v else None)"

definition cache_set :: "'f cache \<Rightarrow> int \<Rightarrow> string \<Rightarrow> 'f rec_dict list \<Rightarrow> int \<Rightarrow> 'f cache" where
  "cache_set c now k v timeout = c(k \<mapsto> (v, now + timeout))"

definition delete_pattern :: "string \<Rightarrow> 'f cache \<Rightarrow> 'f cache" where
  "delete_pattern p c = (\<lambda>k. if prefix p k then None else c k)"

text \<open>The f-string \<^verbatim>\<open>f"recommendations_user_{user_id}_{num_recommendations}"\<close>.\<close>

definition cache_key :: "int \<Rightarrow> int \<Rightarrow> string" where
  "cache_key u n = ''recommendations_user_'' @ show_int u @ ''_'' @ show_int n"

text \<open>
  \<^verbatim>\<open>Product.objects.exclude(id__in=interacted_products)\<close>. The model class orders its
  query sets by \<^verbatim>\<open>-created_at\<close>; rows with the same \<^verbatim>\<open>created_at\<close> come in the order of
  the table.
\<close>

definition exclude_ids :: "int list \<Rightarrow> Product list \<Rightarrow> Product list" where
  "exclude_ids ids ps = sort_key (\<lambda>p. - created_at p) (filter (\<lambda>p. p_id p \<notin> set ids) ps)"

text \<open>
  The blended score \<^verbatim>\<open>0.7 * c + 0.3 * m\<close> of two floats, and
  \<^verbatim>\<open>0.7 * cf_scores + 0.3 * mf_scores\<close> on one-dimensional arrays: elementwise for equal
  lengths, an array of length 1 is broadcast, any other pair of lengths raises.
\<close>

definition blend :: "'f arith \<Rightarrow> 'f \<Rightarrow> 'f \<Rightarrow> 'f" where
  "blend ar c m = f_add ar (f_mul ar (f_of_real ar 0.7) c) (f_mul ar (f_of_real ar 0.3) m)"

definition ensemble :: "'f arith \<Rightarrow> 'f list \<Rightarrow> 'f list \<Rightarrow> py_error + 'f list" where
  "ensemble ar cf_scores mf_scores =
     (if length cf_scores = length mf_scores
      then Inr (map2 (blend ar) cf_scores mf_scores)
      else if length cf_scores = 1
      then Inr (map (\<lambda>m. blend ar (hd cf_scores) m) mf_scores)
      else if length mf_scores = 1
      then Inr (map (\<lambda>c. blend ar c (hd mf_scores)) cf_scores)
      else Inl ValueError)"

text \<open>
  The slice \<^verbatim>\<open>xs[:n]\<close>: the first \<open>n\<close> elements, and for a negative \<open>n\<close> all but the last
  \<open>-n\<close>.
\<close>

definition slice_to :: "int \<Rightarrow> 'a list \<Rightarrow> 'a list" where
  "slice_to n xs = (if 0 \<le> n then take (nat n) xs else take (length xs - nat (- n)) xs)"

text \<open>
  \<^verbatim>\<open>sorted(pairs, key=lambda x: x[1], reverse=True)\<close>. Python sorts stably and ascending;
  for \<^verbatim>\<open>reverse=True\<close> it reverses the list, sorts it and reverses the result, which
  makes the result descending and keeps pairs of equal score in their order.
\<close>

definition sorted_reverse :: "('a \<times> 'f::linorder) list \<Rightarrow> ('a \<times> 'f) list" where
  "sorted_reverse pairs = rev (sort_key snd (rev pairs))"

definition format_rec :: "'f arith \<Rightarrow> Product \<times> 'f \<Rightarrow> 'f rec_dict" where
  "format_rec ar x =
     \<lparr>d_product_id = p_id (fst x), d_product_name = p_name (fst x),
      d_category = p_category (fst x), d_price = f_of_real ar (p_price (fst x)),
      d_confidence_score = snd x\<rparr>"

text \<open>
  \<^verbatim>\<open>get_recommendations(self, user_id, num_recommendations=10)\<close> in its parts: the part
  after the cache check, which reads the database and runs the models
  (\<open>compute_recommendations\<close>); the call of \<^verbatim>\<open>cache.set\<close> that follows it
  (\<open>store_recommendations\<close>); and the whole method, as one worker runs it from its first
  line to its last. \<^verbatim>\<open>if cached\<close> holds for a cached list that is not empty.
\<close>

definition compute_recommendations ::
    "('f::linorder) arith \<Rightarrow> 'f engine \<Rightarrow> int \<Rightarrow> int \<Rightarrow> 'f server \<Rightarrow> py_error + 'f rec_dict list" where
  "compute_recommendations ar self u n st =
     (let user_interactions = filter (\<lambda>b. user_id b = u) (user_behavior st);
          interacted_products = map product_id user_interactions;
          candidates = exclude_ids interacted_products (products st);
          cf_scores = cf_predict self u candidates;
          mf_scores = mf_predict self u candidates
      in case ensemble ar cf_scores mf_scores of
           Inl e \<Rightarrow> Inl e
         | Inr final_scores \<Rightarrow>
             (let ranked_products = sorted_reverse (zip candidates final_scores);
                  top_products = slice_to n ranked_products
              in Inr (map (format_rec ar) top_products)))"

definition store_recommendations ::
    "int \<Rightarrow> int \<Rightarrow> int \<Rightarrow> 'f rec_dict list \<Rightarrow> int \<Rightarrow> 'f server \<Rightarrow> 'f server" where
  "store_recommendations now u n recs timeout st =
     st\<lparr>cache := cache_set (cache st) now (cache_key u n) recs timeout\<rparr>"

definition get_recommendations ::
    "('f::linorder) arith \<Rightarrow> 'f engine \<Rightarrow> int \<Rightarrow> int \<Rightarrow> int \<Rightarrow> 'f server
       \<Rightarrow> (py_error + 'f rec_dict list) \<times> 'f server" where
  "get_recommendations ar self now u n st =
     (case cache_get (cache st) now (cache_key u n) of
        Some (r # rs) \<Rightarrow> (Inr (r # rs), st)
      | _ \<Rightarrow>
          (case compute_recommendations ar self u n st of
             Inl e \<Rightarrow> (Inl e, st)
           | Inr recs \<Rightarrow> (Inr recs, store_recommendations now u n recs 1800 st)))"

text \<open>Whether the cache check of \<^verbatim>\<open>get_recommendations\<close> finds nothing to return.\<close>

definition cache_miss :: "'f server \<Rightarrow> int \<Rightarrow> int \<Rightarrow> int \<Rightarrow> bool" where
  "cache_miss st now u n =
     (case cache_get (cache st) now (cache_key u n) of Some (r # rs) \<Rightarrow> False | _ \<Rightarrow> True)"

text \<open>
  The task \<^verbatim>\<open>retrain_models\<close>: it trains an engine object of its own, then deletes every
  key that starts with \<^verbatim>\<open>recommendations_\<close>.
\<close>

definition retrain_models :: "'f server \<Rightarrow> 'f server" where
  "retrain_models st = st\<lparr>cache := delete_pattern ''recommendations_'' (cache st)\<rparr>"

text \<open>
  Modelled from the spec: \<^verbatim>\<open>RecommendationEngine.record_interaction\<close>, which
  \<^verbatim>\<open>InteractionAPIView.post\<close> calls and whose body is not among the repository's files.
  The specification (4.7, 4.9) has the recording of an interaction invalidate all cache
  entries keyed to that user, whatever their count; the keys of a user \<open>u\<close> are those
  that \<^verbatim>\<open>get_recommendations\<close> writes, \<^verbatim>\<open>recommendations_user_<u>_<count>\<close>.
\<close>

definition record_interaction :: "int \<Rightarrow> int \<Rightarrow> string \<Rightarrow> 'f server \<Rightarrow> 'f server" where
  "record_interaction u i ty st =
     st\<lparr>cache := delete_pattern (''recommendations_user_'' @ show_int u @ ''_'') (cache st)\<rparr>"

text \<open>
  \<^verbatim>\<open>InteractionAPIView.post\<close>. The body of the request is a dictionary; \<open>None\<close> is a key
  that is missing. \<^verbatim>\<open>all([...])\<close> holds when the two ids are not 0 and the type is not
  empty. \<^verbatim>\<open>UserBehavior.objects.create\<close> raises when a foreign key has no row; the
  \<^verbatim>\<open>except\<close> block turns every exception into a response with status 500.
\<close>

record interaction_data =
  data_user_id :: "int option"
  data_product_id :: "int option"
  data_interaction_type :: "string option"
  data_rating :: "real option"

datatype api_response = Response "(string \<times> string) list" nat

definition truthy_int :: "int option \<Rightarrow> bool" where
  "truthy_int x = (case x of None \<Rightarrow> False | Some i \<Rightarrow> i \<noteq> 0)"

definition truthy_str :: "string option \<Rightarrow> bool" where
  "truthy_str x = (case x of None \<Rightarrow> False | Some s \<Rightarrow> s \<noteq> [])"

definition objects_create :: "UserBehavior \<Rightarrow> 'f server \<Rightarrow> py_error + 'f server" where
  "objects_create b st =
     (if user_id b \<in> set (auth_user st) \<and> product_id b \<in> set (map p_id (products st))
      then Inr (st\<lparr>user_behavior := user_behavior st @ [b]\<rparr>)
      else Inl IntegrityError)"

definition post :: "int \<Rightarrow> interaction_data \<Rightarrow> 'f server \<Rightarrow> api_response \<times> 'f server" where
  "post now d st =
     (if \<not> (truthy_int (data_user_id d) \<and> truthy_int (data_product_id d) \<and>
             truthy_str (data_interaction_type d))
      then (Response [(''error'', ''user_id, product_id, and interaction_type are required'')] 400,
            st)
      else
        (let u = the (data_user_id d); i = the (data_product_id d);
             ty = the (data_interaction_type d)
         in case objects_create
                   \<lparr>user_id = u, product_id = i, interaction_type = ty,
                    rating' = data_rating d, timestamp' = now, session_id = None\<rparr> st of
              Inl e \<Rightarrow> (Response [(''error'', ''IntegrityError'')] 500, st)
            | Inr st' \<Rightarrow>
                (Response [(''message'', ''Interaction recorded successfully'')] 201,
                 record_interaction u i ty st')))"

text \<open>
  The task \<^verbatim>\<open>precompute_recommendations(user_id)\<close>, as one worker runs it: it asks for
  the default ten recommendations and stores them under the key of that user and count
  for an hour. An exception of the call ends the task.
\<close>

definition precompute_recommendations ::
    "('f::linorder) arith \<Rightarrow> 'f engine \<Rightarrow> int \<Rightarrow> int \<Rightarrow> 'f server \<Rightarrow> 'f server" where
  "precompute_recommendations ar self now u st =
     (case get_recommendations ar self now u 10 st of
        (Inl e, st1) \<Rightarrow> st1
      | (Inr recs, st1) \<Rightarrow> store_recommendations now u 10 recs 3600 st1)"

text \<open>
  The service runs several workers on one database and one cache, so the lines of one
  call are interleaved with those of the others. A worker inside a call of
  \<^verbatim>\<open>get_recommendations\<close> is at one of two places:
  \<^item> \<open>Computing u n ts\<close>: its cache check has found nothing and it has not yet read the
    tables;
  \<^item> \<open>Storing u n recs ts\<close>: it holds the list \<open>recs\<close> and has not yet returned.

  \<open>ts\<close> are the timeouts of the calls of \<^verbatim>\<open>cache.set\<close> the worker has still to make, in
  their order: \<open>[1800]\<close> for a request, \<open>[1800, 3600]\<close> for the task
  \<^verbatim>\<open>precompute_recommendations\<close>, whose own \<^verbatim>\<open>cache.set\<close> follows that of the call it
  makes, and \<open>[3600]\<close> for the task when its call has found the list in the cache. The
  count of the task is the default, 10.
\<close>

datatype 'f worker =
  Computing int int "int list"
| Storing int int "'f rec_dict list" "int list"

text \<open>
  \<open>runs ar st0 ws0 st ws\<close> says that the service, started in state \<open>st0\<close> with the
  workers \<open>ws0\<close> inside their calls, can come to state \<open>st\<close> with the workers \<open>ws\<close> inside
  theirs. The steps are those of the listings, each at a time \<open>t\<close> of its own:
  \<^item> \<open>called\<close>, \<open>task_called\<close>: a request, or the task, checks the cache and finds nothing;
  \<^item> \<open>task_hit\<close>: the call of the task finds a list in the cache and returns it to the task;
  \<^item> \<open>computed\<close>: a worker reads the tables (one query, the filter on the interactions
    being a subquery of the query for the candidates), runs the models and formats
    the list;
  \<^item> \<open>raised\<close>: the computation raises, which ends the call;
  \<^item> \<open>stored\<close>: a worker makes its next call of \<^verbatim>\<open>cache.set\<close>;
  \<^item> \<open>returned\<close>: a worker with no call of \<^verbatim>\<open>cache.set\<close> left returns;
  \<^item> \<open>created\<close>, \<open>invalidated\<close>: an interaction is written to the table; the cache
    entries of a user are deleted (the two steps of \<^verbatim>\<open>InteractionAPIView.post\<close>);
  \<^item> \<open>retrained\<close>: \<^verbatim>\<open>retrain_models\<close> deletes the recommendation keys.

  A request that finds its list in the cache returns it at once and leaves the state and
  the workers as they are, and so does a rejected request.
\<close>

inductive runs ::
    "('f::linorder) arith \<Rightarrow> 'f server \<Rightarrow> 'f worker list \<Rightarrow> 'f server \<Rightarrow> 'f worker list \<Rightarrow> bool"
  for ar :: "'f arith" and st0 :: "'f server" and ws0 :: "'f worker list" where
  start: "runs ar st0 ws0 st0 ws0"
| called:
    "runs ar st0 ws0 st ws \<Longrightarrow> cache_miss st t u n \<Longrightarrow>
     runs ar st0 ws0 st (Computing u n [1800] # ws)"
| task_called:
    "runs ar st0 ws0 st ws \<Longrightarrow> cache_miss st t u 10 \<Longrightarrow>
     runs ar st0 ws0 st (Computing u 10 [1800, 3600] # ws)"
| task_hit:
    "runs ar st0 ws0 st ws \<Longrightarrow> cache_get (cache st) t (cache_key u 10) = Some (r # rs) \<Longrightarrow>
     runs ar st0 ws0 st (Storing u 10 (r # rs) [3600] # ws)"
| computed:
    "runs ar st0 ws0 st ws \<Longrightarrow> Computing u n ts \<in> set ws \<Longrightarrow>
     compute_recommendations ar self u n st = Inr recs \<Longrightarrow>
     runs ar st0 ws0 st (Storing u n recs ts # remove1 (Computing u n ts) ws)"
| raised:
    "runs ar st0 ws0 st ws \<Longrightarrow> Computing u n ts \<in> set ws \<Longrightarrow>
     compute_recommendations ar self u n st = Inl e \<Longrightarrow>
     runs ar st0 ws0 st (remove1 (Computing u n ts) ws)"
| stored:
    "runs ar st0 ws0 st ws \<Longrightarrow> Storing u n recs (timeout # ts) \<in> set ws \<Longrightarrow>
     runs ar st0 ws0 (store_recommendations t u n recs timeout st)
       (Storing u n recs ts # remove1 (Storing u n recs (timeout # ts)) ws)"
| returned:
    "runs ar st0 ws0 st ws \<Longrightarrow> Storing u n recs [] \<in> set ws \<Longrightarrow>
     runs ar st0 ws0 st (remove1 (Storing u n recs []) ws)"
| created:
    "runs ar st0 ws0 st ws \<Longrightarrow> objects_create b st = Inr st1 \<Longrightarrow> runs ar st0 ws0 st1 ws"
| invalidated:
    "runs ar st0 ws0 st ws \<Longrightarrow> runs ar st0 ws0 (record_interaction u i ty st) ws"
| retrained:
    "runs ar st0 ws0 st ws \<Longrightarrow> runs ar st0 ws0 (retrain_models st) ws"

text \<open>
  For examples: the arithmetic that computes exactly, on the reals (with the scores 0 and
  1 of the examples, the doubles are the roundings of the same values and stand in the
  same order); a small shop with one user and two products, of which the
  second is the newer, no interactions and an empty cache; an engine whose two models
  score every candidate 0; an engine whose first model scores product 1 with 1 and whose
  second model scores product 2 with 1, every other score being 0; the body of a request
  that records a view of product 1 by user 7; and the two dictionaries of the shop's
  products, with a given score.
\<close>

definition exact_arith :: "real arith" where
  "exact_arith = \<lparr>f_of_real = (\<lambda>x. x), f_mul = (\<lambda>x y. x * y), f_add = (\<lambda>x y. x + y)\<rparr>"

definition shop :: "real server" where
  "shop =
     \<lparr>auth_user = [7],
      products =
        [\<lparr>p_id = 1, p_name = ''Mug'', p_description = ''A mug'', p_category = ''Home'',
          p_price = 5, created_at = 100\<rparr>,
         \<lparr>p_id = 2, p_name = ''Lamp'', p_description = ''A lamp'', p_category = ''Home'',
          p_price = 20, created_at = 200\<rparr>],
      user_behavior = [],
      cache = Map.empty\<rparr>"

definition zero_engine :: "real engine" where
  "zero_engine =
     \<lparr>cf_predict = (\<lambda>u ps. map (\<lambda>p. 0) ps), mf_predict = (\<lambda>u ps. map (\<lambda>p. 0) ps)\<rparr>"

definition split_engine :: "real engine" where
  "split_engine =
     \<lparr>cf_predict = (\<lambda>u ps. map (\<lambda>p. if p_id p = 1 then 1 else 0) ps),
      mf_predict = (\<lambda>u ps. map (\<lambda>p. if p_id p = 2 then 1 else 0) ps)\<rparr>"

definition view_request :: interaction_data where
  "view_request =
     \<lparr>data_user_id = Some 7, data_product_id = Some 1, data_interaction_type = Some ''view'',
      data_rating = None\<rparr>"

definition lamp_rec :: "real \<Rightarrow> real rec_dict" where
  "lamp_rec s =
     \<lparr>d_product_id = 2, d_product_name = ''Lamp'', d_category = ''Home'', d_price = 20,
      d_confidence_score = s\<rparr>"

definition mug_rec :: "real \<Rightarrow> real rec_dict" where
  "mug_rec s =
     \<lparr>d_product_id = 1, d_product_name = ''Mug'', d_category = ''Home'', d_price = 5,
      d_confidence_score = s\<rparr>"

text \<open>
  States of the shop. \<open>shop_cached\<close>: after a first request for ten recommendations for
  user 7, made at time 0. \<open>shop_viewed\<close>: after the view of product 1 by user 7 has then
  been recorded at time 50. \<open>shop_refilled\<close>: after a list computed from \<open>shop_viewed\<close>
  has been stored at time 60. \<open>shop_seen\<close>: the shop, its cache still empty, after the
  view has been recorded at time 50. \<open>shop_stale\<close>: after the list computed from \<open>shop\<close>,
  before the view, has been stored in \<open>shop_seen\<close> at time 60.
\<close>

definition shop_cached :: "real server" where
  "shop_cached = snd (get_recommendations exact_arith zero_engine 0 7 10 shop)"

definition shop_viewed :: "real server" where
  "shop_viewed = snd (post 50 view_request shop_cached)"

definition shop_refilled :: "real server" where
  "shop_refilled = store_recommendations 60 7 10 [lamp_rec 0] 1800 shop_viewed"

definition shop_seen :: "real server" where
  "shop_seen = snd (post 50 view_request shop)"

definition shop_stale :: "real server" where
  "shop_stale = store_recommendations 60 7 10 [lamp_rec 0, mug_rec 0] 1800 shop_seen"

section \<open>Feature engineering and experiments (the Python listings of frontend/src/App.js)\<close>

text \<open>The dictionary \<^verbatim>\<open>score_map\<close>; looking up a type that is not a key raises.\<close>

definition score_map :: "string \<Rightarrow> real option" where
  "score_map = [''view'' \<mapsto> 1, ''like'' \<mapsto> 2, ''cart'' \<mapsto> 3, ''purchase'' \<mapsto> 5]"




text \<open>An interaction of the scenario: only user, item, type and time matter.\<close>

definition interaction :: "int \<Rightarrow> int \<Rightarrow> string \<Rightarrow> int \<Rightarrow> UserBehavior" where
  "interaction u i ty t =
     \<lparr>user_id = u, product_id = i, interaction_type = ty, rating' = None, timestamp' = t,
      session_id = None\<rparr>"






section \<open>Properties of the cart\<close>

lemma cart_recordAdvancedInteraction:
  "cart (recordAdvancedInteraction now pId ty s) = cart s"
  by (simp add: recordAdvancedInteraction_def Let_def split: option.split)


lemma cart_generateAdvancedRecommendations:
  "cart (generateAdvancedRecommendations random uId s) = cart s"
  by (simp add: generateAdvancedRecommendations_def)

lemma cart_handleUserLogin: "cart (handleUserLogin random u s) = cart s"
  by (simp add: handleUserLogin_def cart_generateAdvancedRecommendations)

lemma cart_checkout: "cart (checkout now s) = []"
  by (simp add: checkout_def)

lemma ids_after_increment:
  "map id' (map (\<lambda>item. if id' item = i then item\<lparr>quantity := quantity item + 1\<rparr> else item) xs)
     = map id' xs"
  by (induction xs) auto

lemma find_by_id_None:
  "find (\<lambda>item. id' item = i) xs = None \<longleftrightarrow> i \<notin> set (map id' xs)"
  by (auto simp: find_None_iff)

lemma cart_addToCart_present:
  assumes "id' p \<in> set (map id' (cart s))"
  shows "cart (addToCart now p s) =
           map (\<lambda>item. if id' item = id' p then item\<lparr>quantity := quantity item + 1\<rparr> else item)
             (cart s)"
proof -
  from assms have "find (\<lambda>item. id' item = id' p) (cart s) \<noteq> None"
    by (simp only: find_by_id_None) simp
  then obtain e where "find (\<lambda>item. id' item = id' p) (cart s) = Some e"
    by blast
  then show ?thesis
    by (simp add: addToCart_def cart_recordAdvancedInteraction)
qed

lemma cart_addToCart_absent:
  assumes "id' p \<notin> set (map id' (cart s))"
  shows "cart (addToCart now p s) = cart s @ [product.extend p \<lparr>quantity = 1\<rparr>]"
proof -
  from assms have "find (\<lambda>item. id' item = id' p) (cart s) = None"
    by (simp only: find_by_id_None) simp
  then show ?thesis
    by (simp add: addToCart_def cart_recordAdvancedInteraction)
qed

lemma id_extend_cart_item: "id' (product.extend p \<lparr>quantity = q\<rparr>) = id' p"
  by (simp add: product.defs)

lemma distinct_addToCart:
  assumes "distinct (map id' (cart s))"
  shows "distinct (map id' (cart (addToCart now p s)))"
proof (cases "id' p \<in> set (map id' (cart s))")
  case True
  then show ?thesis
    using assms by (simp only: cart_addToCart_present ids_after_increment)
next
  case False
  then show ?thesis
    using assms by (simp add: cart_addToCart_absent id_extend_cart_item)
qed

lemma reachable_distinct: "reachable s \<Longrightarrow> distinct (map id' (cart s))"
proof (induction rule: reachable.induct)
  case init
  show ?case by (simp add: initial_state_def)
next
  case (add s now p)
  then show ?case by (simp only: distinct_addToCart)
next
  case (buy s now)
  show ?case by (simp add: cart_checkout)
next
  case (login s random u)
  then show ?case by (simp add: cart_handleUserLogin)
next
  case (mount s behaviors)
  then show ?case by (simp add: generateAdvancedBehavior_def)
next
  case (leave s)
  then show ?case by (simp add: logout_def)
next
  case (interact s now pId ty)
  then show ?case by (simp add: cart_recordAdvancedInteraction)
next
  case (regenerate s random uId)
  then show ?case by (simp add: cart_generateAdvancedRecommendations)
qed

text \<open>
  Claim C10. In every state the component can reach, no two cart entries have the same
  product id. \<^verbatim>\<open>addToCart\<close> on a product whose id is in the cart keeps the length of the
  cart, adds 1 to the quantity of the entries with that id (there is exactly one) and
  leaves every other entry as it is; on a product whose id is not in the cart it appends
  one entry, the product with quantity 1.
\<close>

theorem addToCart_no_duplicate_ids:
  assumes "reachable s"
  shows "distinct (map id' (cart s)) \<and>
         distinct (map id' (cart (addToCart now p s))) \<and>
         (id' p \<in> set (map id' (cart s)) \<longrightarrow>
            length (cart (addToCart now p s)) = length (cart s) \<and>
            (\<exists>!i. i < length (cart s) \<and> id' (cart s ! i) = id' p) \<and>
            (\<forall>i < length (cart s).
               cart (addToCart now p s) ! i =
                 (if id' (cart s ! i) = id' p
                  then (cart s ! i)\<lparr>quantity := quantity (cart s ! i) + 1\<rparr>
                  else cart s ! i))) \<and>
         (id' p \<notin> set (map id' (cart s)) \<longrightarrow>
            cart (addToCart now p s) = cart s @ [product.extend p \<lparr>quantity = 1\<rparr>])"
proof -
  have d: "distinct (map id' (cart s))"
    using assms by (rule reachable_distinct)
  have uniq: "\<exists>!i. i < length (cart s) \<and> id' (cart s ! i) = id' p"
    if "id' p \<in> set (map id' (cart s))"
  proof -
    from that obtain i where i: "i < length (cart s)" "id' (cart s ! i) = id' p"
      by (auto simp: in_set_conv_nth)
    have "j = i" if "j < length (cart s)" "id' (cart s ! j) = id' p" for j
    proof -
      have "map id' (cart s) ! j = map id' (cart s) ! i"
        using that i by simp
      with d that(1) i(1) show ?thesis
        by (simp only: nth_eq_iff_index_eq length_map)
    qed
    with i show ?thesis by blast
  qed
  show ?thesis
    using d uniq
    by (auto simp: distinct_addToCart cart_addToCart_present cart_addToCart_absent)
qed

theorem addToCart_no_duplicate_ids_witness:
  "reachable (addToCart 0 (hd sampleProducts) initial_state) \<and>
   map id' (cart (addToCart 0 (hd sampleProducts) initial_state)) = [1] \<and>
   map quantity (cart (addToCart 0 (hd sampleProducts) initial_state)) = [1] \<and>
   map id' (cart (addToCart 1 (hd sampleProducts) (addToCart 0 (hd sampleProducts) initial_state)))
     = [1] \<and>
   map quantity
     (cart (addToCart 1 (hd sampleProducts) (addToCart 0 (hd sampleProducts) initial_state)))
     = [2]"
proof -
  let ?p = "hd sampleProducts"
  let ?s = "addToCart 0 ?p initial_state"
  have r: "reachable ?s"
    by (rule reachable.add) (rule reachable.init)
  have c0: "cart initial_state = []"
    by (simp add: initial_state_def)
  have p: "id' ?p = 1"
    by (simp add: sampleProducts_def)
  have c1: "cart ?s = [product.extend ?p \<lparr>quantity = 1\<rparr>]"
    using addToCart_no_duplicate_ids [OF reachable.init, of 0 ?p] c0 by simp
  have c2: "cart (addToCart 1 ?p ?s) = [(product.extend ?p \<lparr>quantity = 1\<rparr>)\<lparr>quantity := 2\<rparr>]"
  proof -
    have "length (cart (addToCart 1 ?p ?s)) = 1"
      and "cart (addToCart 1 ?p ?s) ! 0 = (product.extend ?p \<lparr>quantity = 1\<rparr>)\<lparr>quantity := 2\<rparr>"
      using addToCart_no_duplicate_ids [OF r, of 1 ?p] c1
      by (simp_all add: id_extend_cart_item product.defs)
    then show ?thesis
      by (cases "cart (addToCart 1 ?p ?s)") simp_all
  qed
  show ?thesis
    using r c1 c2 p by (simp add: product.defs)
qed

section \<open>Properties of the API service\<close>

lemma show_nat_500: "show_nat 500 = ''500''"
  by (simp add: show_nat.simps digit_char_def)

lemma request_cases:
  "request b endpoint options =
     (case fetch b (API_BASE_URL b @ endpoint)
             (options\<lparr>headers := Some (case headers options of
                                          None \<Rightarrow> [(''Content-Type'', ''application/json'')]
                                        | Some h \<Rightarrow> h)\<rparr>) of
        Inl e \<Rightarrow> Inl e
      | Inr r \<Rightarrow>
          if ok r then json_body r
          else Inl (Error (''HTTP error! status: '' @ show_nat (status r))))"
  by (auto simp: request_def Let_def split: sum.splits option.splits)

lemma json_get_sample_products:
  "\<exists>ps. json_get ''products'' sample_data = Some (JArray ps) \<and> length ps = 5"
  by (simp add: sample_data_def)

lemma json_get_sample_count: "json_get ''count'' sample_data = Some (JNumber 5)"
  by (simp add: sample_data_def)

text \<open>
  Claim C9. \<^verbatim>\<open>getAllProducts\<close> is always fulfilled, never rejected. Whenever the search
  request it makes (the request for \<^verbatim>\<open>/search/?\<close> followed by the parameters \<^verbatim>\<open>q=\<close> with
  the empty query) fails, with whatever error, the result is the fixed sample object,
  whose \<^verbatim>\<open>products\<close> are an array of exactly 5 entries and whose \<^verbatim>\<open>count\<close> is 5; whenever
  the search succeeds, the result is the value the search returned.
\<close>

theorem getAllProducts_fallback:
  "(\<exists>v. getAllProducts b = Inr v) \<and>
   searchProducts b '''' None = request b (''/search/?'' @ search_params b [(''q'', '''')]) no_options \<and>
   (\<forall>e. searchProducts b '''' None = Inl e \<longrightarrow> getAllProducts b = Inr sample_data) \<and>
   (\<forall>v. searchProducts b '''' None = Inr v \<longrightarrow> getAllProducts b = Inr v) \<and>
   (\<exists>ps. json_get ''products'' sample_data = Some (JArray ps) \<and> length ps = 5) \<and>
   json_get ''count'' sample_data = Some (JNumber 5)"
proof -
  have "\<exists>v. getAllProducts b = Inr v"
    by (cases "searchProducts b '''' None") (simp_all add: getAllProducts_def)
  moreover have "searchProducts b '''' None =
      request b (''/search/?'' @ search_params b [(''q'', '''')]) no_options"
    by (simp add: searchProducts_def)
  moreover have "\<forall>e. searchProducts b '''' None = Inl e \<longrightarrow> getAllProducts b = Inr sample_data"
    by (simp add: getAllProducts_def)
  moreover have "\<forall>v. searchProducts b '''' None = Inr v \<longrightarrow> getAllProducts b = Inr v"
    by (simp add: getAllProducts_def)
  ultimately show ?thesis
    using json_get_sample_products json_get_sample_count by blast
qed

theorem getAllProducts_fallback_witness:
  "searchProducts offline_browser '''' None = Inl (TypeError ''Failed to fetch'') \<and>
   getAllProducts offline_browser = Inr sample_data \<and>
   searchProducts (browser_answering 200 (JObject [(''count'', JNumber 0)])) '''' None
     = Inr (JObject [(''count'', JNumber 0)]) \<and>
   getAllProducts (browser_answering 200 (JObject [(''count'', JNumber 0)]))
     = Inr (JObject [(''count'', JNumber 0)]) \<and>
   searchProducts (browser_answering 503 JNull) '''' None
     = Inl (Error ''HTTP error! status: 503'') \<and>
   getAllProducts (browser_answering 503 JNull) = Inr sample_data"
proof -
  have a: "searchProducts offline_browser '''' None = Inl (TypeError ''Failed to fetch'')"
    by (simp add: searchProducts_def request_cases offline_browser_def)
  have b: "searchProducts (browser_answering 200 (JObject [(''count'', JNumber 0)])) '''' None
             = Inr (JObject [(''count'', JNumber 0)])"
    by (simp add: searchProducts_def request_cases browser_answering_def)
  have c: "searchProducts (browser_answering 503 JNull) '''' None
             = Inl (Error ''HTTP error! status: 503'')"
    by (simp add: searchProducts_def request_cases browser_answering_def show_nat.simps
          digit_char_def)
  show ?thesis
    using a b c
      getAllProducts_fallback [of offline_browser]
      getAllProducts_fallback [of "browser_answering 200 (JObject [(''count'', JNumber 0)])"]
      getAllProducts_fallback [of "browser_answering 503 JNull"]
    by simp
qed

text \<open>
  Claim C8, as the code has it. \<^verbatim>\<open>getRecommendations\<close> hands the request for
  \<^verbatim>\<open>/recommendations/<user>/?count=<count>\<close> to \<^verbatim>\<open>request\<close>, which rethrows every failure:
  the call is rejected with the error of \<^verbatim>\<open>fetch\<close> when \<^verbatim>\<open>fetch\<close> is rejected, with
  \<^verbatim>\<open>Error("HTTP error! status: N")\<close> when the response is not ok, and with the error of
  \<^verbatim>\<open>response.json()\<close> when the body does not parse; it is fulfilled, with the parsed body,
  in the one remaining case. No list is put in the place of a failure.
\<close>

theorem getRecommendations_rethrows:
  assumes "url = API_BASE_URL b @ ''/recommendations/'' @ show_int uId @ ''/?count='' @
                   show_int (case cnt of None \<Rightarrow> 10 | Some c \<Rightarrow> c)"
      and "config = \<lparr>headers = Some [(''Content-Type'', ''application/json'')],
                      http_method = None, body = None\<rparr>"
  shows "(\<forall>e. fetch b url config = Inl e \<longrightarrow> getRecommendations b uId cnt = Inl e) \<and>
         (\<forall>r. fetch b url config = Inr r \<and> \<not> ok r \<longrightarrow>
              getRecommendations b uId cnt
                = Inl (Error (''HTTP error! status: '' @ show_nat (status r)))) \<and>
         (\<forall>r e. fetch b url config = Inr r \<and> ok r \<and> json_body r = Inl e \<longrightarrow>
              getRecommendations b uId cnt = Inl e) \<and>
         (\<forall>r v. fetch b url config = Inr r \<and> ok r \<and> json_body r = Inr v \<longrightarrow>
              getRecommendations b uId cnt = Inr v)"
  using assms
  by (simp add: getRecommendations_def request_cases no_options_def)

theorem getRecommendations_rethrows_witness:
  "fetch (browser_answering 500 JNull)
     (API_BASE_URL (browser_answering 500 JNull) @ ''/recommendations/'' @ show_int 1 @
        ''/?count='' @ show_int 5)
     \<lparr>headers = Some [(''Content-Type'', ''application/json'')], http_method = None, body = None\<rparr>
     = Inr \<lparr>ok = False, status = 500, json_body = Inr JNull\<rparr> \<and>
   getRecommendations (browser_answering 500 JNull) 1 (Some 5)
     = Inl (Error ''HTTP error! status: 500'')"
  using getRecommendations_rethrows [OF refl refl, of "browser_answering 500 JNull" 1 "Some 5"]
  by (simp add: browser_answering_def show_nat_500)

text \<open>
  The claim as the specification states it fails: a server that answers with status 500
  makes \<^verbatim>\<open>getRecommendations\<close> reject, and an unreachable server does the same.
\<close>

theorem getRecommendations_failure_counterexample:
  "getRecommendations (browser_answering 500 JNull) 1 (Some 5)
     = Inl (Error ''HTTP error! status: 500'') \<and>
   getRecommendations offline_browser 1 None = Inl (TypeError ''Failed to fetch'')"
  by (simp add: getRecommendations_def request_cases no_options_def browser_answering_def
        offline_browser_def show_nat_500)

section \<open>Properties of the storefront's recommendations and interactions\<close>









text \<open>
  Claim C7, as the code has it. Neither function checks the type. When a user is logged
  in, \<^verbatim>\<open>recordAdvancedInteraction\<close> appends the interaction to the log for every type,
  known or not; when no user is logged in it does nothing. \<^verbatim>\<open>recordInteraction\<close> posts
  every type to \<^verbatim>\<open>/interaction/\<close> and is fulfilled with the body of whatever ok response
  comes back. No call fails because of the type.
\<close>

theorem recordAdvancedInteraction_any_type:
  "(\<forall>u. currentUser s = Some u \<longrightarrow>
      userBehavior (recordAdvancedInteraction now pId ty s)
        = userBehavior s @ [\<lparr>userId = uid u, productId = pId, type' = ty, timestamp = now\<rparr>]) \<and>
   (currentUser s = None \<longrightarrow> recordAdvancedInteraction now pId ty s = s) \<and>
   (\<forall>r v. fetch b (API_BASE_URL b @ ''/interaction/'')
             \<lparr>headers = Some [(''Content-Type'', ''application/json'')],
              http_method = Some ''POST'',
              body = Some (stringify b (JObject
                       [(''user_id'', JNumber (of_int uId)),
                        (''product_id'', JNumber (of_int pId)),
                        (''interaction_type'', JString ty)]))\<rparr> = Inr r \<and>
           ok r \<and> json_body r = Inr v \<longrightarrow>
      recordInteraction b uId pId ty = Inr v)"
  by (auto simp: recordAdvancedInteraction_def Let_def recordInteraction_def request_cases)

theorem recordAdvancedInteraction_any_type_witness:
  "currentUser (initial_state\<lparr>currentUser := Some alex\<rparr>) = Some alex \<and>
   userBehavior (recordAdvancedInteraction 7 3 ''view'' (initial_state\<lparr>currentUser := Some alex\<rparr>))
     = [\<lparr>userId = 1, productId = 3, type' = ''view'', timestamp = 7\<rparr>] \<and>
   currentUser initial_state = None \<and>
   recordAdvancedInteraction 7 3 ''view'' initial_state = initial_state \<and>
   recordInteraction (browser_answering 201 JNull) 1 3 ''view'' = Inr JNull"
  using recordAdvancedInteraction_any_type
          [of "initial_state\<lparr>currentUser := Some alex\<rparr>" 7 3 "''view''"
              "browser_answering 201 JNull" 1]
        recordAdvancedInteraction_any_type
          [of initial_state 7 3 "''view''" "browser_answering 201 JNull" 1]
  by (simp add: initial_state_def alex_def browser_answering_def)

text \<open>
  The claim as the specification states it fails: \<^verbatim>\<open>teleport\<close> is no key of the weight
  table, and the interaction is appended to the log all the same, and posted.
\<close>

theorem unknown_type_recorded_counterexample:
  "score_map ''teleport'' = None \<and>
   userBehavior
     (recordAdvancedInteraction 7 3 ''teleport'' (initial_state\<lparr>currentUser := Some alex\<rparr>))
     = [\<lparr>userId = 1, productId = 3, type' = ''teleport'', timestamp = 7\<rparr>] \<and>
   recordInteraction (browser_answering 201 JNull) 1 3 ''teleport'' = Inr JNull"
  by (simp add: score_map_def recordAdvancedInteraction_def initial_state_def alex_def
        recordInteraction_def request_cases browser_answering_def)

section \<open>Properties of the recommendation service\<close>




lemma set_sorted_reverse: "set (sorted_reverse pairs) = set pairs"
  by (simp add: sorted_reverse_def)

lemma set_slice_to: "set (slice_to n xs) \<subseteq> set xs"
  by (auto simp: slice_to_def dest: in_set_takeD)



lemma set_exclude_ids: "set (exclude_ids ids ps) = {p \<in> set ps. p_id p \<notin> set ids}"
  by (auto simp: exclude_ids_def)


lemma compute_recommendations_Inr:
  assumes "compute_recommendations ar self u n st = Inr recs"
  shows "\<exists>final_scores.
           ensemble ar
             (cf_predict self u
                (exclude_ids (map product_id (filter (\<lambda>b. user_id b = u) (user_behavior st)))
                   (products st)))
             (mf_predict self u
                (exclude_ids (map product_id (filter (\<lambda>b. user_id b = u) (user_behavior st)))
                   (products st))) = Inr final_scores \<and>
           recs = map (format_rec ar) (slice_to n (sorted_reverse
                    (zip (exclude_ids (map product_id (filter (\<lambda>b. user_id b = u) (user_behavior st)))
                            (products st)) final_scores)))"
proof (cases "ensemble ar
             (cf_predict self u
                (exclude_ids (map product_id (filter (\<lambda>b. user_id b = u) (user_behavior st)))
                   (products st)))
             (mf_predict self u
                (exclude_ids (map product_id (filter (\<lambda>b. user_id b = u) (user_behavior st)))
                   (products st)))")
  case (Inl e)
  with assms show ?thesis
    by (simp add: compute_recommendations_def Let_def)
next
  case (Inr final_scores)
  with assms show ?thesis
    by (simp add: compute_recommendations_def Let_def)
qed




lemma d_product_id_format_rec: "d_product_id (format_rec ar x) = p_id (fst x)"
  by (simp add: format_rec_def)


lemma fst_ranked_in_candidates:
  assumes "x \<in> set (slice_to n (sorted_reverse (zip cs fs)))"
  shows "fst x \<in> set cs"
proof -
  from assms set_slice_to [of n "sorted_reverse (zip cs fs)"]
  have "x \<in> set (sorted_reverse (zip cs fs))"
    by (rule rev_subsetD)
  then have "x \<in> set (zip cs fs)"
    by (simp only: set_sorted_reverse)
  then have "(fst x, snd x) \<in> set (zip cs fs)"
    by simp
  then show ?thesis
    by (rule set_zip_leftD)
qed

lemma ids_of_recs:
  assumes "compute_recommendations ar self u n st = Inr recs"
      and "i \<in> set (map d_product_id recs)"
  shows "i \<in> set (map p_id (products st)) \<and>
         i \<notin> set (map product_id (filter (\<lambda>b. user_id b = u) (user_behavior st)))"
proof -
  let ?cs = "exclude_ids (map product_id (filter (\<lambda>b. user_id b = u) (user_behavior st)))
               (products st)"
  from compute_recommendations_Inr [OF assms(1)] obtain fs where
    recs: "recs = map (format_rec ar) (slice_to n (sorted_reverse (zip ?cs fs)))"
    by blast
  from assms(2) obtain x where x: "x \<in> set (slice_to n (sorted_reverse (zip ?cs fs)))"
    and i: "i = p_id (fst x)"
    unfolding recs by (auto simp: d_product_id_format_rec)
  from x have "fst x \<in> set ?cs"
    by (rule fst_ranked_in_candidates)
  then have "fst x \<in> set (products st)"
    and "p_id (fst x) \<notin> set (map product_id (filter (\<lambda>b. user_id b = u) (user_behavior st)))"
    by (simp_all add: set_exclude_ids)
  then show ?thesis
    unfolding i by simp
qed





lemma cache_record_interaction:
  "cache (record_interaction u i ty st) (cache_key u n) = None"
  by (simp add: record_interaction_def delete_pattern_def cache_key_def)

lemma get_recommendations_miss:
  assumes "cache_miss st t u n"
  shows "fst (get_recommendations ar self t u n st) = compute_recommendations ar self u n st"
proof (cases "cache_get (cache st) t (cache_key u n)")
  case None
  then show ?thesis
    by (cases "compute_recommendations ar self u n st") (simp_all add: get_recommendations_def)
next
  case (Some cached)
  with assms have "cached = []"
    by (cases cached) (simp_all add: cache_miss_def)
  with Some show ?thesis
    by (cases "compute_recommendations ar self u n st") (simp_all add: get_recommendations_def)
qed

lemma cache_miss_empty: "cache st (cache_key u n) = None \<Longrightarrow> cache_miss st t u n"
  by (simp add: cache_miss_def cache_get_def)

lemma post_created:
  assumes "post now d st = (Response msg 201, st')"
  shows "\<exists>u i ty. data_user_id d = Some u \<and> data_product_id d = Some i \<and>
           data_interaction_type d = Some ty \<and>
           st' = record_interaction u i ty
                   (st\<lparr>user_behavior := user_behavior st @
                      [\<lparr>user_id = u, product_id = i, interaction_type = ty,
                        rating' = data_rating d, timestamp' = now, session_id = None\<rparr>]\<rparr>)"
  using assms
  by (auto simp: post_def Let_def objects_create_def truthy_int_def truthy_str_def
           split: if_splits option.splits sum.splits)

subsection \<open>The shop\<close>

lemma cache_key_7_10: "cache_key 7 10 = ''recommendations_user_7_10''"
  by (simp add: cache_key_def show_int_def show_nat.simps digit_char_def)

lemma cache_key_7_minus_1: "cache_key 7 (- 1) = ''recommendations_user_7_-1''"
  by (simp add: cache_key_def show_int_def show_nat.simps digit_char_def)


lemma compute_shop:
  "compute_recommendations exact_arith zero_engine 7 10 shop = Inr [lamp_rec 0, mug_rec 0]"
  by (simp add: compute_recommendations_def shop_def zero_engine_def exact_arith_def
        exclude_ids_def ensemble_def blend_def sorted_reverse_def slice_to_def format_rec_def
        lamp_rec_def mug_rec_def)


lemma compute_shop_split:
  "compute_recommendations exact_arith split_engine 7 10 shop
     = Inr [mug_rec (7 / 10), lamp_rec (3 / 10)]"
  by (simp add: compute_recommendations_def shop_def split_engine_def exact_arith_def
        exclude_ids_def ensemble_def blend_def sorted_reverse_def slice_to_def format_rec_def
        lamp_rec_def mug_rec_def)

lemma cache_shop: "cache shop = Map.empty"
  by (simp add: shop_def)

lemma cache_miss_shop: "cache_miss shop t 7 n"
  by (simp add: cache_miss_def cache_get_def cache_shop)

lemma shop_cached_eq:
  "shop_cached
     = shop\<lparr>cache := [''recommendations_user_7_10'' \<mapsto> ([lamp_rec 0, mug_rec 0], 1800)]\<rparr>"
  by (simp add: shop_cached_def get_recommendations_def store_recommendations_def
        cache_key_7_10 compute_shop cache_get_def cache_set_def cache_shop)

lemma cached_hit:
  "fst (get_recommendations exact_arith self 40 7 10 shop_cached) = Inr [lamp_rec 0, mug_rec 0]"
  by (simp add: shop_cached_eq get_recommendations_def cache_key_7_10 cache_get_def)

lemma shop_seen_eq:
  "shop_seen =
     shop\<lparr>user_behavior :=
             [\<lparr>user_id = 7, product_id = 1, interaction_type = ''view'', rating' = None,
               timestamp' = 50, session_id = None\<rparr>],
          cache := Map.empty\<rparr>"
  by (simp add: shop_seen_def post_def view_request_def truthy_int_def truthy_str_def
        objects_create_def shop_def record_interaction_def delete_pattern_def fun_eq_iff)

lemma post_shop:
  "post 50 view_request shop =
     (Response [(''message'', ''Interaction recorded successfully'')] 201, shop_seen)"
  by (simp add: shop_seen_def post_def Let_def view_request_def truthy_int_def truthy_str_def
        objects_create_def shop_def)

lemma shop_viewed_eq: "shop_viewed = shop_seen"
  by (simp add: shop_viewed_def shop_seen_eq post_def view_request_def truthy_int_def
        truthy_str_def objects_create_def shop_cached_eq shop_def record_interaction_def
        delete_pattern_def show_int_def show_nat.simps digit_char_def fun_eq_iff)

lemma post_shop_cached:
  "post 50 view_request shop_cached =
     (Response [(''message'', ''Interaction recorded successfully'')] 201, shop_viewed)"
  by (simp add: shop_viewed_def post_def Let_def view_request_def truthy_int_def truthy_str_def
        objects_create_def shop_cached_eq shop_def)

lemma compute_shop_seen:
  "compute_recommendations exact_arith zero_engine 7 10 shop_seen = Inr [lamp_rec 0]"
  by (simp add: compute_recommendations_def shop_seen_eq shop_def zero_engine_def
        exact_arith_def exclude_ids_def ensemble_def blend_def sorted_reverse_def slice_to_def
        format_rec_def lamp_rec_def)

lemma cache_miss_shop_seen: "cache_miss shop_seen t 7 n"
  by (simp add: cache_miss_def cache_get_def shop_seen_eq)

lemma stale_hit:
  "fst (get_recommendations exact_arith self 70 7 10 shop_stale) = Inr [lamp_rec 0, mug_rec 0]"
  by (simp add: shop_stale_def store_recommendations_def get_recommendations_def
        cache_key_7_10 cache_get_def cache_set_def)

lemma refilled_hit:
  "fst (get_recommendations exact_arith self 70 7 10 shop_refilled) = Inr [lamp_rec 0]"
  by (simp add: shop_refilled_def store_recommendations_def get_recommendations_def
        cache_key_7_10 cache_get_def cache_set_def)







subsection \<open>Cache keys tell users and counts apart\<close>

lemma digit_val_digit_char: "d < 10 \<Longrightarrow> digit_val (digit_char d) = d"
proof -
  assume "d < 10"
  then have "d \<in> {0, 1, 2, 3, 4, 5, 6, 7, 8, 9}"
    by auto
  then show ?thesis
    by (auto simp: digit_val_def digit_char_def)
qed

lemma digit_char_in_digits: "digit_char d \<in> set ''0123456789''"
  by (simp add: digit_char_def)

lemma read_nat_snoc: "read_nat (cs @ [c]) = 10 * read_nat cs + digit_val c"
  by (simp add: read_nat_def)

lemma read_show_nat: "read_nat (show_nat n) = n"
proof (induction n rule: show_nat.induct)
  case (1 n)
  show ?case
  proof (cases "n < 10")
    case True
    then show ?thesis
      by (subst show_nat.simps) (simp add: read_nat_def digit_val_digit_char)
  next
    case False
    with 1 have "read_nat (show_nat (n div 10)) = n div 10"
      by simp
    with False show ?thesis
      by (subst show_nat.simps) (simp add: read_nat_snoc digit_val_digit_char)
  qed
qed

lemma show_nat_digits: "set (show_nat n) \<subseteq> set ''0123456789''"
proof (induction n rule: show_nat.induct)
  case (1 n)
  show ?case
  proof (cases "n < 10")
    case True
    then show ?thesis
      using digit_char_in_digits [of n] by (subst show_nat.simps) simp
  next
    case False
    with 1 have "set (show_nat (n div 10)) \<subseteq> set ''0123456789''"
      by simp
    with False show ?thesis
      using digit_char_in_digits [of "n mod 10"] by (subst show_nat.simps) simp
  qed
qed

lemma show_nat_inj: "show_nat m = show_nat n \<Longrightarrow> m = n"
  by (metis read_show_nat)

lemma show_nat_no_minus: "CHR ''-'' \<notin> set (show_nat n)"
  using show_nat_digits [of n] by auto

lemma show_nat_no_underscore: "CHR ''_'' \<notin> set (show_nat n)"
  using show_nat_digits [of n] by auto

lemma show_int_no_underscore: "CHR ''_'' \<notin> set (show_int i)"
  by (simp add: show_int_def show_nat_no_underscore)

lemma show_int_inj:
  assumes "show_int i = show_int j"
  shows "i = j"
proof (cases "i < 0")
  case True
  note i = this
  show ?thesis
  proof (cases "j < 0")
    case True
    with i assms have "show_nat (nat (- i)) = show_nat (nat (- j))"
      by (simp add: show_int_def)
    then have "nat (- i) = nat (- j)"
      by (rule show_nat_inj)
    with i True show ?thesis
      by simp
  next
    case False
    with i assms have "CHR ''-'' # show_nat (nat (- i)) = show_nat (nat j)"
      by (simp add: show_int_def)
    then have "CHR ''-'' \<in> set (show_nat (nat j))"
      by (metis list.set_intros(1))
    then show ?thesis
      by (simp add: show_nat_no_minus)
  qed
next
  case False
  note i = this
  show ?thesis
  proof (cases "j < 0")
    case True
    with i assms have "show_nat (nat i) = CHR ''-'' # show_nat (nat (- j))"
      by (simp add: show_int_def)
    then have "CHR ''-'' \<in> set (show_nat (nat i))"
      by (metis list.set_intros(1))
    then show ?thesis
      by (simp add: show_nat_no_minus)
  next
    case False
    with i assms have "show_nat (nat i) = show_nat (nat j)"
      by (simp add: show_int_def)
    then have "nat i = nat j"
      by (rule show_nat_inj)
    with i False show ?thesis
      by simp
  qed
qed

lemma takeWhile_until: "c \<notin> set a \<Longrightarrow> takeWhile (\<lambda>x. x \<noteq> c) (a @ c # b) = a"
  by (induction a) auto

lemma split_at_underscore:
  assumes "a @ CHR ''_'' # b = a' @ CHR ''_'' # b'"
      and "CHR ''_'' \<notin> set a" and "CHR ''_'' \<notin> set a'"
  shows "a = a' \<and> b = b'"
proof -
  have "takeWhile (\<lambda>c. c \<noteq> CHR ''_'') (a @ CHR ''_'' # b) = a"
    using assms(2) by (rule takeWhile_until)
  moreover have "takeWhile (\<lambda>c. c \<noteq> CHR ''_'') (a' @ CHR ''_'' # b') = a'"
    using assms(3) by (rule takeWhile_until)
  ultimately have "a = a'"
    using assms(1) by simp
  with assms(1) show ?thesis
    by simp
qed

lemma cache_key_inj:
  assumes "cache_key u n = cache_key u' n'"
  shows "u = u' \<and> n = n'"
proof -
  from assms have "show_int u @ CHR ''_'' # show_int n = show_int u' @ CHR ''_'' # show_int n'"
    by (simp add: cache_key_def)
  then have "show_int u = show_int u' \<and> show_int n = show_int n'"
    by (rule split_at_underscore) (rule show_int_no_underscore)+
  then show ?thesis
    by (simp add: show_int_inj)
qed

subsection \<open>What the cache holds after an interaction\<close>

lemma get_recommendations_result:
  assumes "fst (get_recommendations ar self t u n st) = Inr recs"
  shows "(\<exists>e. cache st (cache_key u n) = Some (recs, e)) \<or>
         compute_recommendations ar self u n st = Inr recs"
proof (cases "cache_get (cache st) t (cache_key u n)")
  case None
  with assms show ?thesis
    by (cases "compute_recommendations ar self u n st") (simp_all add: get_recommendations_def)
next
  case (Some cached)
  show ?thesis
  proof (cases cached)
    case Nil
    with Some assms show ?thesis
      by (cases "compute_recommendations ar self u n st") (simp_all add: get_recommendations_def)
  next
    case (Cons r rs)
    with Some assms have "recs = cached"
      by (simp add: get_recommendations_def)
    moreover from Some obtain e where "cache st (cache_key u n) = Some (cached, e)"
      by (auto simp: cache_get_def split: option.splits if_splits)
    ultimately show ?thesis
      by blast
  qed
qed

lemma cache_get_Some: "cache_get c t k = Some v \<Longrightarrow> \<exists>e. c k = Some (v, e)"
  by (auto simp: cache_get_def split: option.splits if_splits)

lemma cache_store_recommendations:
  "cache (store_recommendations t u n recs timeout st)
     = (cache st)(cache_key u n \<mapsto> (recs, t + timeout))"
  by (simp add: store_recommendations_def cache_set_def)

lemma user_behavior_store_recommendations:
  "user_behavior (store_recommendations t u n recs timeout st) = user_behavior st"
  by (simp add: store_recommendations_def)

lemma objects_create_Inr:
  "objects_create b st = Inr st1 \<Longrightarrow>
   cache st1 = cache st \<and> user_behavior st1 = user_behavior st @ [b]"
  by (auto simp: objects_create_def split: if_splits)

lemma cache_after_record_interaction:
  "cache (record_interaction u i ty st) k = Some x \<Longrightarrow> cache st k = Some x"
  by (simp add: record_interaction_def delete_pattern_def split: if_splits)

lemma cache_after_retrain_models:
  "cache (retrain_models st) k = Some x \<Longrightarrow> cache st k = Some x"
  by (simp add: retrain_models_def delete_pattern_def split: if_splits)

lemma user_behavior_record_interaction:
  "user_behavior (record_interaction u i ty st) = user_behavior st"
  by (simp add: record_interaction_def)

lemma user_behavior_retrain_models: "user_behavior (retrain_models st) = user_behavior st"
  by (simp add: retrain_models_def)

lemma in_set_remove1_imp: "y \<in> set (remove1 x xs) \<Longrightarrow> y \<in> set xs"
  using set_remove1_subset [of x xs] by (rule subsetD)

text \<open>The table of interactions only grows.\<close>

lemma interaction_kept:
  assumes "runs ar st0 ws0 st ws" and "b \<in> set (user_behavior st0)"
  shows "b \<in> set (user_behavior st)"
  using assms
proof (induction rule: runs.induct)
  case (created st ws b' st1)
  from objects_create_Inr [OF created.hyps(2)]
  have "user_behavior st1 = user_behavior st @ [b']"
    by simp
  with created.IH [OF created.prems] show ?case
    by simp
qed (simp_all add: user_behavior_store_recommendations user_behavior_record_interaction
       user_behavior_retrain_models)

text \<open>
  When the cache holds no list for user \<open>u\<close> and no worker holds one, every list for \<open>u\<close>
  that the cache or a worker holds later has been computed in the course of the run.
\<close>

lemma lists_computed_in_run:
  assumes "runs ar st0 ws0 st ws"
      and "\<forall>n. cache st0 (cache_key u n) = None"
      and "\<forall>n recs ts. Storing u n recs ts \<notin> set ws0"
  shows "(\<forall>n recs e. cache st (cache_key u n) = Some (recs, e) \<longrightarrow>
            (\<exists>self1 st1 ws1. runs ar st0 ws0 st1 ws1 \<and>
               compute_recommendations ar self1 u n st1 = Inr recs)) \<and>
         (\<forall>n recs ts. Storing u n recs ts \<in> set ws \<longrightarrow>
            (\<exists>self1 st1 ws1. runs ar st0 ws0 st1 ws1 \<and>
               compute_recommendations ar self1 u n st1 = Inr recs))"
  using assms
proof (induction rule: runs.induct)
  case start
  then show ?case
    by simp
next
  case (called st ws t u' n')
  from called.IH [OF called.prems] show ?case
    by simp
next
  case (task_called st ws t u')
  from task_called.IH [OF task_called.prems] show ?case
    by simp
next
  case (task_hit st ws t u' r rs)
  note IH = task_hit.IH [OF task_hit.prems]
  from cache_get_Some [OF task_hit.hyps(2)] obtain e where
    e: "cache st (cache_key u' 10) = Some (r # rs, e)"
    by blast
  have "\<exists>self1 st1 ws1. runs ar st0 ws0 st1 ws1 \<and>
          compute_recommendations ar self1 u n st1 = Inr recs"
    if "Storing u n recs ts \<in> set (Storing u' 10 (r # rs) [3600] # ws)" for n recs ts
  proof (cases "Storing u n recs ts = Storing u' 10 (r # rs) [3600]")
    case True
    with e have "cache st (cache_key u n) = Some (recs, e)"
      by simp
    with IH show ?thesis
      by blast
  next
    case False
    with that have "Storing u n recs ts \<in> set ws"
      by auto
    with IH show ?thesis
      by blast
  qed
  with IH show ?case
    by blast
next
  case (computed st ws u' n' ts' self recs')
  note IH = computed.IH [OF computed.prems]
  have "\<exists>self1 st1 ws1. runs ar st0 ws0 st1 ws1 \<and>
          compute_recommendations ar self1 u n st1 = Inr recs"
    if "Storing u n recs ts \<in> set (Storing u' n' recs' ts' # remove1 (Computing u' n' ts') ws)"
    for n recs ts
  proof (cases "Storing u n recs ts = Storing u' n' recs' ts'")
    case True
    with computed.hyps(3) have "compute_recommendations ar self u n st = Inr recs"
      by simp
    with computed.hyps(1) show ?thesis
      by blast
  next
    case False
    with that have "Storing u n recs ts \<in> set (remove1 (Computing u' n' ts') ws)"
      by auto
    then have "Storing u n recs ts \<in> set ws"
      by (rule in_set_remove1_imp)
    with IH show ?thesis
      by blast
  qed
  with IH show ?case
    by blast
next
  case (raised st ws u' n' ts' self e)
  note IH = raised.IH [OF raised.prems]
  have "Storing u n recs ts \<in> set ws"
    if "Storing u n recs ts \<in> set (remove1 (Computing u' n' ts') ws)" for n recs ts
    using that by (rule in_set_remove1_imp)
  with IH show ?case
    by blast
next
  case (stored st ws u' n' recs' timeout ts' t)
  note IH = stored.IH [OF stored.prems]
  have a: "\<exists>self1 st1 ws1. runs ar st0 ws0 st1 ws1 \<and>
          compute_recommendations ar self1 u n st1 = Inr recs"
    if c: "cache (store_recommendations t u' n' recs' timeout st) (cache_key u n) = Some (recs, e)"
    for n recs e
  proof (cases "cache_key u n = cache_key u' n'")
    case True
    then have "u = u' \<and> n = n'"
      by (rule cache_key_inj)
    moreover from c True have "recs = recs'"
      by (simp add: cache_store_recommendations)
    ultimately have "Storing u n recs (timeout # ts') \<in> set ws"
      using stored.hyps(2) by simp
    with IH show ?thesis
      by blast
  next
    case False
    with c have "cache st (cache_key u n) = Some (recs, e)"
      by (simp add: cache_store_recommendations)
    with IH show ?thesis
      by blast
  qed
  have b: "\<exists>self1 st1 ws1. runs ar st0 ws0 st1 ws1 \<and>
          compute_recommendations ar self1 u n st1 = Inr recs"
    if "Storing u n recs ts \<in>
          set (Storing u' n' recs' ts' # remove1 (Storing u' n' recs' (timeout # ts')) ws)"
    for n recs ts
  proof (cases "Storing u n recs ts = Storing u' n' recs' ts'")
    case True
    with stored.hyps(2) have "Storing u n recs (timeout # ts') \<in> set ws"
      by simp
    with IH show ?thesis
      by blast
  next
    case False
    with that have "Storing u n recs ts \<in> set (remove1 (Storing u' n' recs' (timeout # ts')) ws)"
      by auto
    then have "Storing u n recs ts \<in> set ws"
      by (rule in_set_remove1_imp)
    with IH show ?thesis
      by blast
  qed
  from a b show ?case
    by blast
next
  case (returned st ws u' n' recs')
  note IH = returned.IH [OF returned.prems]
  have "Storing u n recs ts \<in> set ws"
    if "Storing u n recs ts \<in> set (remove1 (Storing u' n' recs' []) ws)" for n recs ts
    using that by (rule in_set_remove1_imp)
  with IH show ?case
    by blast
next
  case (created st ws b st1)
  note IH = created.IH [OF created.prems]
  from objects_create_Inr [OF created.hyps(2)] have "cache st1 = cache st"
    by simp
  with IH show ?case
    by simp
next
  case (invalidated st ws u' i' ty')
  note IH = invalidated.IH [OF invalidated.prems]
  have "cache st (cache_key u n) = Some (recs, e)"
    if "cache (record_interaction u' i' ty' st) (cache_key u n) = Some (recs, e)" for n recs e
    using that by (rule cache_after_record_interaction)
  with IH show ?case
    by blast
next
  case (retrained st ws)
  note IH = retrained.IH [OF retrained.prems]
  have "cache st (cache_key u n) = Some (recs, e)"
    if "cache (retrain_models st) (cache_key u n) = Some (recs, e)" for n recs e
    using that by (rule cache_after_retrain_models)
  with IH show ?case
    by blast
qed

text \<open>
  Claim C6, as the code has it. When \<^verbatim>\<open>InteractionAPIView.post\<close> answers 201, the
  interaction of user \<open>u\<close> with product \<open>i\<close> is in the table and the cache holds no entry
  for \<open>u\<close>, whatever the count; the keys carry no variant. A request for \<open>u\<close> made in that
  state computes its list. In every run of the service from that state on, with whatever
  requests, tasks, interactions and retrainings interleaved, a list that a request for
  \<open>u\<close> returns, from the cache or from its own computation, and a list that a worker
  holds for \<open>u\<close>, has been computed in the course of that run, after the interaction, and
  does not hold product \<open>i\<close>: provided that, when the interaction was recorded, no
  worker held a list for \<open>u\<close> that it had still to store or to return.
\<close>

theorem interaction_invalidates_cache:
  assumes "post now d st = (Response msg 201, st')"
  shows "\<exists>u i ty.
           data_user_id d = Some u \<and> data_product_id d = Some i \<and>
           data_interaction_type d = Some ty \<and>
           user_behavior st' = user_behavior st @
             [\<lparr>user_id = u, product_id = i, interaction_type = ty, rating' = data_rating d,
               timestamp' = now, session_id = None\<rparr>] \<and>
           (\<forall>n. cache st' (cache_key u n) = None) \<and>
           (\<forall>ar self n t. fst (get_recommendations ar self t u n st')
                             = compute_recommendations ar self u n st') \<and>
           (\<forall>ar ws0 st2 ws2 self n t recs.
              runs ar st' ws0 st2 ws2 \<and> (\<forall>m l ts. Storing u m l ts \<notin> set ws0) \<and>
              (fst (get_recommendations ar self t u n st2) = Inr recs \<or>
               (\<exists>ts. Storing u n recs ts \<in> set ws2)) \<longrightarrow>
                (\<exists>self1 st1 ws1. runs ar st' ws0 st1 ws1 \<and>
                   compute_recommendations ar self1 u n st1 = Inr recs) \<and>
                i \<notin> set (map d_product_id recs))"
proof -
  from post_created [OF assms] obtain u i ty where
    d: "data_user_id d = Some u" "data_product_id d = Some i" "data_interaction_type d = Some ty"
    and st': "st' = record_interaction u i ty
                (st\<lparr>user_behavior := user_behavior st @
                   [\<lparr>user_id = u, product_id = i, interaction_type = ty,
                     rating' = data_rating d, timestamp' = now, session_id = None\<rparr>]\<rparr>)"
    by blast
  let ?b = "\<lparr>user_id = u, product_id = i, interaction_type = ty, rating' = data_rating d,
             timestamp' = now, session_id = None\<rparr>"
  have ub: "user_behavior st' = user_behavior st @ [?b]"
    by (simp add: st' record_interaction_def)
  have miss: "cache st' (cache_key u n) = None" for n
    unfolding st' by (rule cache_record_interaction)
  have fresh: "fst (get_recommendations ar self t u n st') = compute_recommendations ar self u n st'"
    for ar self n t
    using miss by (intro get_recommendations_miss cache_miss_empty)
  have after: "(\<exists>self1 st1 ws1. runs ar st' ws0 st1 ws1 \<and>
                  compute_recommendations ar self1 u n st1 = Inr recs) \<and>
               i \<notin> set (map d_product_id recs)"
    if r: "runs ar st' ws0 st2 ws2" and w: "\<forall>m l ts. Storing u m l ts \<notin> set ws0"
      and s: "fst (get_recommendations ar self t u n st2) = Inr recs \<or>
              (\<exists>ts. Storing u n recs ts \<in> set ws2)"
    for ar ws0 st2 ws2 self n t recs
  proof -
    from miss have m: "\<forall>n. cache st' (cache_key u n) = None"
      by blast
    note inv = lists_computed_in_run [OF r m w]
    from s have "\<exists>self1 st1 ws1. runs ar st' ws0 st1 ws1 \<and>
                   compute_recommendations ar self1 u n st1 = Inr recs"
    proof
      assume "fst (get_recommendations ar self t u n st2) = Inr recs"
      from get_recommendations_result [OF this] show ?thesis
      proof
        assume "\<exists>e. cache st2 (cache_key u n) = Some (recs, e)"
        with inv show ?thesis
          by blast
      next
        assume "compute_recommendations ar self u n st2 = Inr recs"
        with r show ?thesis
          by blast
      qed
    next
      assume "\<exists>ts. Storing u n recs ts \<in> set ws2"
      with inv show ?thesis
        by blast
    qed
    then obtain self1 st1 ws1 where r1: "runs ar st' ws0 st1 ws1"
      and c: "compute_recommendations ar self1 u n st1 = Inr recs"
      by blast
    from ub have "?b \<in> set (user_behavior st')"
      by simp
    with r1 have "?b \<in> set (user_behavior st1)"
      by (rule interaction_kept)
    then have "i \<in> set (map product_id (filter (\<lambda>b. user_id b = u) (user_behavior st1)))"
      by force
    with ids_of_recs [OF c] have "i \<notin> set (map d_product_id recs)"
      by blast
    with r1 c show ?thesis
      by blast
  qed
  have miss_all: "\<forall>n. cache st' (cache_key u n) = None"
    using miss by blast
  have fresh_all: "\<forall>ar self n t. fst (get_recommendations ar self t u n st')
                      = compute_recommendations ar self u n st'"
    using fresh by blast
  have after_all: "\<forall>ar ws0 st2 ws2 self n t recs.
              runs ar st' ws0 st2 ws2 \<and> (\<forall>m l ts. Storing u m l ts \<notin> set ws0) \<and>
              (fst (get_recommendations ar self t u n st2) = Inr recs \<or>
               (\<exists>ts. Storing u n recs ts \<in> set ws2)) \<longrightarrow>
                (\<exists>self1 st1 ws1. runs ar st' ws0 st1 ws1 \<and>
                   compute_recommendations ar self1 u n st1 = Inr recs) \<and>
                i \<notin> set (map d_product_id recs)"
  proof (intro allI impI)
    fix ar ws0 st2 ws2 self n t recs
    assume h: "runs ar st' ws0 st2 ws2 \<and> (\<forall>m l ts. Storing u m l ts \<notin> set ws0) \<and>
              (fst (get_recommendations ar self t u n st2) = Inr recs \<or>
               (\<exists>ts. Storing u n recs ts \<in> set ws2))"
    then have "runs ar st' ws0 st2 ws2" and "\<forall>m l ts. Storing u m l ts \<notin> set ws0"
      and "fst (get_recommendations ar self t u n st2) = Inr recs \<or>
           (\<exists>ts. Storing u n recs ts \<in> set ws2)"
      by simp_all
    then show "(\<exists>self1 st1 ws1. runs ar st' ws0 st1 ws1 \<and>
                   compute_recommendations ar self1 u n st1 = Inr recs) \<and>
                i \<notin> set (map d_product_id recs)"
      by (rule after)
  qed
  show ?thesis
    by (intro exI [of _ u] exI [of _ i] exI [of _ ty] conjI d ub miss_all fresh_all after_all)
qed

theorem interaction_invalidates_cache_witness:
  "fst (get_recommendations exact_arith zero_engine 40 7 10 shop_cached)
     = Inr [lamp_rec 0, mug_rec 0] \<and>
   post 50 view_request shop_cached
     = (Response [(''message'', ''Interaction recorded successfully'')] 201, shop_viewed) \<and>
   cache shop_viewed (cache_key 7 10) = None \<and>
   fst (get_recommendations exact_arith zero_engine 60 7 10 shop_viewed) = Inr [lamp_rec 0] \<and>
   runs exact_arith shop_viewed [] shop_refilled [] \<and>
   fst (get_recommendations exact_arith zero_engine 70 7 10 shop_refilled) = Inr [lamp_rec 0] \<and>
   1 \<notin> set (map d_product_id [lamp_rec 0])"
proof -
  note p = post_shop_cached
  have r0: "runs exact_arith shop_viewed [] shop_viewed []"
    by (rule runs.start)
  have cm: "cache_miss shop_viewed 60 7 10"
    by (simp only: shop_viewed_eq cache_miss_shop_seen)
  have cs: "compute_recommendations exact_arith zero_engine 7 10 shop_viewed = Inr [lamp_rec 0]"
    by (simp only: shop_viewed_eq compute_shop_seen)
  from runs.called [OF r0 cm]
  have r1: "runs exact_arith shop_viewed [] shop_viewed [Computing 7 10 [1800]]" .
  from runs.computed [OF r1 _ cs, of "[1800]"]
  have r2: "runs exact_arith shop_viewed [] shop_viewed [Storing 7 10 [lamp_rec 0] [1800]]"
    by simp
  from runs.stored [OF r2, of 7 10 "[lamp_rec 0]" 1800 "[]" 60]
  have r3: "runs exact_arith shop_viewed [] shop_refilled [Storing 7 10 [lamp_rec 0] []]"
    by (simp add: shop_refilled_def)
  from runs.returned [OF r3, of 7 10 "[lamp_rec 0]"]
  have l: "runs exact_arith shop_viewed [] shop_refilled []"
    by simp
  have u: "data_user_id view_request = Some 7" "data_product_id view_request = Some 1"
    by (simp_all add: view_request_def)
  from interaction_invalidates_cache [OF p] obtain u' i' where
    u': "data_user_id view_request = Some u'" and i': "data_product_id view_request = Some i'"
    and miss: "\<forall>n. cache shop_viewed (cache_key u' n) = None"
    and fresh: "\<forall>ar self n t. fst (get_recommendations ar self t u' n shop_viewed)
                  = compute_recommendations ar self u' n shop_viewed"
    and after: "\<forall>ar ws0 st2 ws2 self n t recs.
                  runs ar shop_viewed ws0 st2 ws2 \<and> (\<forall>m l ts. Storing u' m l ts \<notin> set ws0) \<and>
                  (fst (get_recommendations ar self t u' n st2) = Inr recs \<or>
                   (\<exists>ts. Storing u' n recs ts \<in> set ws2)) \<longrightarrow>
                  (\<exists>self1 st1 ws1. runs ar shop_viewed ws0 st1 ws1 \<and>
                     compute_recommendations ar self1 u' n st1 = Inr recs) \<and>
                  i' \<notin> set (map d_product_id recs)"
    by blast
  from u u' i' have eq: "u' = 7" "i' = 1"
    by simp_all
  from miss have m: "cache shop_viewed (cache_key 7 10) = None"
    unfolding eq by (rule spec)
  from fresh have "fst (get_recommendations exact_arith zero_engine 60 7 10 shop_viewed)
           = compute_recommendations exact_arith zero_engine 7 10 shop_viewed"
    unfolding eq by blast
  then have f: "fst (get_recommendations exact_arith zero_engine 60 7 10 shop_viewed)
                  = Inr [lamp_rec 0]"
    by (simp only: cs)
  have h: "fst (get_recommendations exact_arith zero_engine 70 7 10 shop_refilled)
             = Inr [lamp_rec 0]"
    by (rule refilled_hit)
  have e: "\<forall>m l ts. Storing (7 :: int) m l ts \<notin> set ([] :: real worker list)"
    by simp
  from after [unfolded eq, THEN spec, THEN spec, THEN spec, THEN spec, THEN spec, THEN spec,
                THEN spec, THEN spec,
                of exact_arith "[]" shop_refilled "[]" zero_engine 70 10 "[lamp_rec 0]"]
    l e h
  have "1 \<notin> set (map d_product_id [lamp_rec 0])"
    by blast
  with p m f l h cached_hit [of zero_engine] show ?thesis
    by simp
qed

text \<open>
  The claim as the specification states it fails when a request is under way while the
  interaction is recorded. A request for user 7 finds the cache of the shop empty and
  computes its list, the lamp and the mug. Before it stores the list, the view of the mug
  by user 7 is recorded and the entries of user 7 are deleted, of which there are none.
  The request then stores its list, and the next request for user 7, made after the
  interaction, gets from the cache the list computed before it, with the mug.
\<close>

theorem stale_list_served_counterexample:
  "runs exact_arith shop [] shop [Storing 7 10 [lamp_rec 0, mug_rec 0] [1800]] \<and>
   post 50 view_request shop
     = (Response [(''message'', ''Interaction recorded successfully'')] 201, shop_seen) \<and>
   runs exact_arith shop_seen [Storing 7 10 [lamp_rec 0, mug_rec 0] [1800]] shop_stale [] \<and>
   runs exact_arith shop [] shop_stale [] \<and>
   map (\<lambda>b. (user_id b, product_id b)) (user_behavior shop_stale) = [(7, 1)] \<and>
   fst (get_recommendations exact_arith zero_engine 70 7 10 shop_stale)
     = Inr [lamp_rec 0, mug_rec 0] \<and>
   compute_recommendations exact_arith zero_engine 7 10 shop_stale = Inr [lamp_rec 0] \<and>
   1 \<in> set (map d_product_id [lamp_rec 0, mug_rec 0])"
proof -
  let ?l = "[lamp_rec 0, mug_rec 0]"
  let ?b = "\<lparr>user_id = 7, product_id = 1, interaction_type = ''view'', rating' = None,
             timestamp' = 50, session_id = None\<rparr>"
  have r0: "runs exact_arith shop [] shop []"
    by (rule runs.start)
  from runs.called [OF r0 cache_miss_shop [of 0 10]]
  have r1: "runs exact_arith shop [] shop [Computing 7 10 [1800]]" .
  from runs.computed [OF r1 _ compute_shop, of "[1800]"]
  have r2: "runs exact_arith shop [] shop [Storing 7 10 ?l [1800]]"
    by simp
  have c: "objects_create ?b shop = Inr (shop\<lparr>user_behavior := [?b]\<rparr>)"
    by (simp add: objects_create_def shop_def)
  from runs.created [OF r2 c]
  have r3: "runs exact_arith shop [] (shop\<lparr>user_behavior := [?b]\<rparr>) [Storing 7 10 ?l [1800]]" .
  have i: "record_interaction 7 1 ''view'' (shop\<lparr>user_behavior := [?b]\<rparr>) = shop_seen"
    by (simp add: shop_seen_eq record_interaction_def delete_pattern_def shop_def fun_eq_iff)
  from runs.invalidated [OF r3, of 7 1 "''view''"]
  have r4: "runs exact_arith shop [] shop_seen [Storing 7 10 ?l [1800]]"
    by (simp only: i)
  from runs.stored [OF r4, of 7 10 ?l 1800 "[]" 60]
  have r5: "runs exact_arith shop [] shop_stale [Storing 7 10 ?l []]"
    by (simp add: shop_stale_def)
  from runs.returned [OF r5, of 7 10 ?l]
  have r6: "runs exact_arith shop [] shop_stale []"
    by simp
  have s0: "runs exact_arith shop_seen [Storing 7 10 ?l [1800]] shop_seen [Storing 7 10 ?l [1800]]"
    by (rule runs.start)
  from runs.stored [OF s0, of 7 10 ?l 1800 "[]" 60]
  have s1: "runs exact_arith shop_seen [Storing 7 10 ?l [1800]] shop_stale [Storing 7 10 ?l []]"
    by (simp add: shop_stale_def)
  from runs.returned [OF s1, of 7 10 ?l]
  have s2: "runs exact_arith shop_seen [Storing 7 10 ?l [1800]] shop_stale []"
    by simp
  have b: "map (\<lambda>b. (user_id b, product_id b)) (user_behavior shop_stale) = [(7, 1)]"
    by (simp add: shop_stale_def store_recommendations_def shop_seen_eq)
  have f: "compute_recommendations exact_arith zero_engine 7 10 shop_stale = Inr [lamp_rec 0]"
    by (simp add: compute_recommendations_def shop_stale_def store_recommendations_def
          shop_seen_eq shop_def zero_engine_def exact_arith_def exclude_ids_def ensemble_def
          blend_def sorted_reverse_def slice_to_def format_rec_def lamp_rec_def)
  have m: "1 \<in> set (map d_product_id ?l)"
    by (simp add: mug_rec_def)
  from r2 post_shop s2 r6 b stale_hit [of zero_engine] f m show ?thesis
    by blast
qed

section \<open>Properties of the feature weights and of the experiment assignment\<close>










end
